theory Spec2Isabelle
  imports Complex_Main
begin

section \<open>Exceptions\<close>

text \<open>
  The exceptions that can travel through \<^verbatim>\<open>trader/controller.py\<close>.
  \<open>StopIteration\<close> is raised by an exhausted iterator, \<open>OverflowError\<close> by
  \<^verbatim>\<open>datetime\<close> and \<^verbatim>\<open>timedelta\<close> arithmetic that leaves their range,
  \<open>ValueError\<close> by \<^verbatim>\<open>timedelta\<close> on a float that is not a number,
  \<open>TypeError\<close> by \<^verbatim>\<open>itertools.chain\<close> on a value that is not iterable, and
  \<open>Failure\<close> stands for whatever an external strategy or operation raises.
\<close>

datatype error = StopIteration | OverflowError | ValueError | TypeError | Failure string

section \<open>\<^verbatim>\<open>datetime\<close> and \<^verbatim>\<open>timedelta\<close>\<close>

text \<open>
  A naive \<^verbatim>\<open>datetime\<close> is the number of microseconds since
  \<^verbatim>\<open>datetime.min\<close> (0001-01-01T00:00:00), a \<^verbatim>\<open>timedelta\<close> a number of
  microseconds. Both types are bounded in Python: a \<^verbatim>\<open>datetime\<close> ends at
  9999-12-31T23:59:59.999999, and the day count of a \<^verbatim>\<open>timedelta\<close> has magnitude at
  most 999999999.
\<close>

type_synonym datetime = int
type_synonym timedelta = int

definition datetime_max :: datetime where
  "datetime_max = 315537897599999999"

definition valid_datetime :: "datetime \<Rightarrow> bool" where
  "valid_datetime d \<longleftrightarrow> 0 \<le> d \<and> d \<le> datetime_max"

text \<open>
  The interval handed to \<^verbatim>\<open>timedelta(seconds=interval)\<close> is a Python number: an
  \<^verbatim>\<open>int\<close>, or a \<^verbatim>\<open>float\<close>, which is a rational (\<open>PyFloat\<close> carries its exact
  value), an infinity or not a number.
\<close>

datatype number = PyInt int | PyFloat rat | PyInf | PyNaN

text \<open>
  \<^verbatim>\<open>timedelta\<close> keeps whole microseconds. Of a float it takes the whole seconds (the
  float truncated towards zero) and the fraction left, multiplies the fraction by
  \<^verbatim>\<open>1e6\<close> in double precision, and rounds that product to the nearest integer, a
  half going to the even one.

  \<open>round_half_even\<close> is that last rounding. \<open>round_double\<close> is the rounding of an exact
  product to the nearest double (53 significant bits, the exponent not below \<open>-1022\<close>,
  a half going to the even one); \<open>binary_exponent n q\<close> is the exponent \<open>e\<close> with
  \<open>2 ^ e \<le> q < 2 ^ (e + 1)\<close>, found in at most \<open>n\<close> halvings or doublings, which is
  enough for a product of a double below one and \<^verbatim>\<open>1e6\<close> when \<open>n\<close> is 1100.
\<close>

definition round_half_even :: "rat \<Rightarrow> int" where
  "round_half_even q =
     (let f = \<lfloor>q\<rfloor>; r = q - of_int f
      in if r < 1 / 2 then f else if 1 / 2 < r then f + 1 else if even f then f else f + 1)"

fun binary_exponent :: "nat \<Rightarrow> rat \<Rightarrow> int" where
  "binary_exponent 0 q = 0"
| "binary_exponent (Suc n) q =
     (if 2 \<le> q then binary_exponent n (q / 2) + 1
      else if q < 1 then binary_exponent n (q * 2) - 1
      else 0)"

definition round_double :: "rat \<Rightarrow> rat" where
  "round_double q =
     (if q = 0 then 0
      else
        (let e = max (binary_exponent 1100 \<bar>q\<bar>) (- 1022); u = 2 powi (e - 52)
         in of_int (round_half_even (q / u)) * u))"

definition towards_zero :: "rat \<Rightarrow> int" where
  "towards_zero q = (if 0 \<le> q then \<lfloor>q\<rfloor> else \<lceil>q\<rceil>)"

definition timedelta_microseconds :: "int \<Rightarrow> error + timedelta" where
  "timedelta_microseconds us =
     (if - 999999999 \<le> us div 86400000000 \<and> us div 86400000000 \<le> 999999999
      then Inr us else Inl OverflowError)"

fun timedelta_seconds :: "number \<Rightarrow> error + timedelta" where
  "timedelta_seconds (PyInt n) = timedelta_microseconds (n * 1000000)"
| "timedelta_seconds (PyFloat x) =
     timedelta_microseconds
       (towards_zero x * 1000000
        + round_half_even (round_double ((x - of_int (towards_zero x)) * 1000000)))"
| "timedelta_seconds PyInf = Inl OverflowError"
| "timedelta_seconds PyNaN = Inl ValueError"

definition datetime_add :: "datetime \<Rightarrow> timedelta \<Rightarrow> error + datetime" where
  "datetime_add d td =
     (if 0 \<le> d + td \<and> d + td \<le> datetime_max then Inr (d + td) else Inl OverflowError)"

section \<open>Clocks\<close>

text \<open>
  A clock is an iterable: \<open>clock_iter\<close> is the state of a fresh traversal
  (\<^verbatim>\<open>iter(clock)\<close>) and \<open>clock_next\<close> is \<^verbatim>\<open>next\<close> on it, which either
  yields a tick and the state to resume from, or raises.
\<close>

record ('t, 'g) clock =
  clock_iter :: 'g
  clock_next :: "'g \<Rightarrow> error + 't \<times> 'g"

text \<open>
  \<^verbatim>\<open>DummyClock\<close>: yields \<^verbatim>\<open>None\<close> (here the unit value) forever.
  \<^verbatim>\<open>IntervalClock\<close>, which reads the wall clock and sleeps, is left out: to the
  controller it is one more clock that never ends.
\<close>

definition DummyClock :: "(unit, unit) clock" where
  "DummyClock = \<lparr>clock_iter = (), clock_next = (\<lambda>g. Inr ((), g))\<rparr>"

text \<open>
  \<^verbatim>\<open>SimulatedClock\<close>: the constructor stores \<^verbatim>\<open>start\<close>, \<^verbatim>\<open>stop\<close> and
  \<^verbatim>\<open>timedelta(seconds=interval)\<close>; it checks nothing itself.
\<close>

record SimulatedClock =
  sc_start :: datetime
  sc_stop :: datetime
  sc_interval :: timedelta

definition SimulatedClock_init :: "datetime \<Rightarrow> datetime \<Rightarrow> number \<Rightarrow> error + SimulatedClock" where
  "SimulatedClock_init start stop interval =
     (case timedelta_seconds interval of
        Inl e \<Rightarrow> Inl e
      | Inr td \<Rightarrow> Inr \<lparr>sc_start = start, sc_stop = stop, sc_interval = td\<rparr>)"

text \<open>
  The generator made by \<^verbatim>\<open>SimulatedClock.__iter__\<close> is either not started yet, or
  suspended at its \<^verbatim>\<open>yield\<close> with the local \<^verbatim>\<open>current\<close>. Resuming it runs
  \<^verbatim>\<open>current += self.interval\<close> and then the loop test
  \<^verbatim>\<open>current < self.stop\<close>.
\<close>

datatype sim_gen = Created | Suspended datetime

definition sim_loop_test :: "SimulatedClock \<Rightarrow> datetime \<Rightarrow> error + datetime \<times> sim_gen" where
  "sim_loop_test self current =
     (if current < sc_stop self then Inr (current, Suspended current) else Inl StopIteration)"

fun SimulatedClock_next :: "SimulatedClock \<Rightarrow> sim_gen \<Rightarrow> error + datetime \<times> sim_gen" where
  "SimulatedClock_next self Created = sim_loop_test self (sc_start self)"
| "SimulatedClock_next self (Suspended current) =
     (case datetime_add current (sc_interval self) of
        Inl e \<Rightarrow> Inl e
      | Inr current' \<Rightarrow> sim_loop_test self current')"

definition SimulatedClock_iter :: "SimulatedClock \<Rightarrow> (datetime, sim_gen) clock" where
  "SimulatedClock_iter self = \<lparr>clock_iter = Created, clock_next = SimulatedClock_next self\<rparr>"

text \<open>
  \<open>pull n c\<close> asks a fresh traversal of the clock \<open>c\<close> for at most \<open>n\<close> ticks: it
  returns the ticks produced, and the exception that ended the traversal, if one did
  within these \<open>n\<close> requests.
\<close>

fun pull_from :: "nat \<Rightarrow> ('g \<Rightarrow> error + 't \<times> 'g) \<Rightarrow> 'g \<Rightarrow> 't list \<times> error option" where
  "pull_from 0 nxt g = ([], None)"
| "pull_from (Suc n) nxt g =
     (case nxt g of
        Inl e \<Rightarrow> ([], Some e)
      | Inr (t, g') \<Rightarrow> (case pull_from n nxt g' of (ts, r) \<Rightarrow> (t # ts, r)))"

definition pull :: "nat \<Rightarrow> ('t, 'g) clock \<Rightarrow> 't list \<times> error option" where
  "pull n c = pull_from n (clock_next c) (clock_iter c)"

text \<open>
  \<open>tick_count start stop td\<close> is \<open>ceil((stop - start) / td)\<close>, the quotient taken in
  the reals.
\<close>

definition tick_count :: "datetime \<Rightarrow> datetime \<Rightarrow> timedelta \<Rightarrow> nat" where
  "tick_count start stop td = nat \<lceil>real_of_int (stop - start) / real_of_int td\<rceil>"

section \<open>Strategies, operations and the controller\<close>

text \<open>
  The broker, the strategies and the operations are external and opaque. An operation is
  a callable applied to the broker (\<^verbatim>\<open>operation(self._broker)\<close>): it changes the
  broker and may raise. A strategy has two methods: \<^verbatim>\<open>start(broker, tick)\<close>, which
  may change the broker and the strategies' own memory and may raise, and
  \<^verbatim>\<open>tick(tick)\<close>, which returns a list of operations or \<^verbatim>\<open>None\<close>, or raises.
  \<^verbatim>\<open>tick\<close> is handed no broker, but the strategy was handed the broker object by
  \<^verbatim>\<open>start\<close> and may have kept it: so \<^verbatim>\<open>tick\<close> too may change the broker, as well
  as the strategies' memory.
\<close>

type_synonym 'b operation = "'b \<Rightarrow> error option \<times> 'b"

record ('t, 'b, 'm) strategy =
  strategy_start :: "'b \<Rightarrow> 't \<Rightarrow> 'm \<Rightarrow> error option \<times> 'b \<times> 'm"
  strategy_tick :: "'t \<Rightarrow> 'b \<Rightarrow> 'm \<Rightarrow> (error + 'b operation list option) \<times> 'b \<times> 'm"

text \<open>
  A strategy leaves the broker alone when its \<^verbatim>\<open>tick\<close> never changes the broker.
\<close>

definition leaves_broker_alone :: "('t, 'b, 'm) strategy \<Rightarrow> bool" where
  "leaves_broker_alone s \<longleftrightarrow> (\<forall>t b m. fst (snd (strategy_tick s t b m)) = b)"

text \<open>
  The calls the controller makes, in the order it makes them. The log of these calls is
  kept beside the controller's fields; the code itself does not read it.
\<close>

datatype ('t, 'b, 'm) call =
    InitializeCalled 't
  | StartCalled "('t, 'b, 'm) strategy" 't
  | ExecuteTickCalled 't
  | TickCalled "('t, 'b, 'm) strategy" 't
  | OperationCalled "'b operation"

text \<open>
  A \<^verbatim>\<open>Controller\<close> object: the fields set by \<^verbatim>\<open>ControllerBase.__init__\<close> and
  \<^verbatim>\<open>ThreadedControllerMixin.__init__\<close> (the thread handle \<^verbatim>\<open>_main_loop\<close> is left
  out), with the strategies' memory and the log of calls.
\<close>

record ('t, 'g, 'b, 'm) controller =
  clock :: "('t, 'g) clock"
  broker :: 'b
  strategies :: "('t, 'b, 'm) strategy list"
  stop_requested :: bool
  is_running :: bool
  memory :: 'm
  calls :: "('t, 'b, 'm) call list"

definition Controller_init ::
  "('t, 'g) clock \<Rightarrow> 'b \<Rightarrow> ('t, 'b, 'm) strategy list \<Rightarrow> 'm \<Rightarrow> ('t, 'g, 'b, 'm) controller" where
  "Controller_init c b ss m =
     \<lparr>clock = c, broker = b, strategies = ss, stop_requested = False, is_running = False,
      memory = m, calls = []\<rparr>"

definition log_call ::
  "('t, 'b, 'm) call \<Rightarrow> ('t, 'g, 'b, 'm) controller \<Rightarrow> ('t, 'g, 'b, 'm) controller" where
  "log_call c self = self\<lparr>calls := calls self @ [c]\<rparr>"

text \<open>
  \<^verbatim>\<open>ControllerBase.initialize\<close>: the loop
  \<^verbatim>\<open>for strategy in self._strategies: strategy.start(self._broker, tick)\<close>.
  An exception leaves the loop at once.
\<close>

fun start_strategies ::
  "('t, 'b, 'm) strategy list \<Rightarrow> 't \<Rightarrow> ('t, 'g, 'b, 'm) controller
     \<Rightarrow> error option \<times> ('t, 'g, 'b, 'm) controller" where
  "start_strategies [] tick self = (None, self)"
| "start_strategies (strategy # rest) tick self =
     (let self1 = log_call (StartCalled strategy tick) self in
      case strategy_start strategy (broker self1) tick (memory self1) of
        (Some e, b, m) \<Rightarrow> (Some e, self1\<lparr>broker := b, memory := m\<rparr>)
      | (None, b, m) \<Rightarrow> start_strategies rest tick (self1\<lparr>broker := b, memory := m\<rparr>))"

definition initialize ::
  "('t, 'g, 'b, 'm) controller \<Rightarrow> 't \<Rightarrow> error option \<times> ('t, 'g, 'b, 'm) controller" where
  "initialize self tick =
     start_strategies (strategies self) tick (log_call (InitializeCalled tick) self)"

text \<open>
  What the hooks themselves do, on the broker and the memory alone, when
  \<^verbatim>\<open>start(broker, tick)\<close> is called on the strategies in collection order and the
  first exception ends it: \<open>start_hooks\<close> returns the number of hooks called, the
  exception if there is one, and the broker and the memory as the hooks leave them.
  \<open>initialized self tick k b m\<close> is the controller \<open>self\<close> after a call of
  \<open>initialize\<close> that has called the hooks of the first \<open>k\<close> strategies, which have
  left the broker \<open>b\<close> and the memory \<open>m\<close>.
\<close>

fun start_hooks ::
  "('t, 'b, 'm) strategy list \<Rightarrow> 't \<Rightarrow> 'b \<Rightarrow> 'm \<Rightarrow> nat \<times> error option \<times> 'b \<times> 'm" where
  "start_hooks [] tick b m = (0, None, b, m)"
| "start_hooks (strategy # rest) tick b m =
     (case strategy_start strategy b tick m of
        (Some e, b', m') \<Rightarrow> (Suc 0, Some e, b', m')
      | (None, b', m') \<Rightarrow>
          (case start_hooks rest tick b' m' of (k, r, b'', m'') \<Rightarrow> (Suc k, r, b'', m'')))"

definition initialized ::
  "('t, 'g, 'b, 'm) controller \<Rightarrow> 't \<Rightarrow> nat \<Rightarrow> 'b \<Rightarrow> 'm \<Rightarrow> ('t, 'g, 'b, 'm) controller" where
  "initialized self tick k b m =
     self\<lparr>broker := b, memory := m,
          calls := calls self @ InitializeCalled tick
                     # map (\<lambda>s. StartCalled s tick) (take k (strategies self))\<rparr>"

text \<open>
  \<^verbatim>\<open>Controller.execute_tick\<close>, first line: the list comprehension
  \<^verbatim>\<open>[strategy.tick(tick) for strategy in self._strategies]\<close>.
\<close>

fun tick_strategies ::
  "('t, 'b, 'm) strategy list \<Rightarrow> 't \<Rightarrow> ('t, 'g, 'b, 'm) controller
     \<Rightarrow> (error + 'b operation list option list) \<times> ('t, 'g, 'b, 'm) controller" where
  "tick_strategies [] tick self = (Inr [], self)"
| "tick_strategies (strategy # rest) tick self =
     (let self1 = log_call (TickCalled strategy tick) self in
      case strategy_tick strategy tick (broker self1) (memory self1) of
        (Inl e, b, m) \<Rightarrow> (Inl e, self1\<lparr>broker := b, memory := m\<rparr>)
      | (Inr r, b, m) \<Rightarrow>
          (case tick_strategies rest tick (self1\<lparr>broker := b, memory := m\<rparr>) of
             (Inl e, self2) \<Rightarrow> (Inl e, self2)
           | (Inr rs, self2) \<Rightarrow> (Inr (r # rs), self2)))"

text \<open>
  Second line: \<^verbatim>\<open>[op for op in operations if op]\<close> keeps the results that are true
  in Python: \<^verbatim>\<open>None\<close> and the empty list are not.
\<close>

fun truthy :: "'a list option \<Rightarrow> bool" where
  "truthy None = False"
| "truthy (Some []) = False"
| "truthy (Some (x # xs)) = True"

text \<open>
  Last lines: \<^verbatim>\<open>for operation in itertools.chain(*operations): operation(self._broker)\<close>.
  The chain walks the results one after the other, and raises \<open>TypeError\<close> when it
  reaches one that is not iterable (\<^verbatim>\<open>None\<close>), after the operations of the results
  before it have been applied.
\<close>

fun apply_operations ::
  "'b operation list \<Rightarrow> ('t, 'g, 'b, 'm) controller \<Rightarrow> error option \<times> ('t, 'g, 'b, 'm) controller" where
  "apply_operations [] self = (None, self)"
| "apply_operations (operation # rest) self =
     (let self1 = log_call (OperationCalled operation) self in
      case operation (broker self1) of
        (Some e, b) \<Rightarrow> (Some e, self1\<lparr>broker := b\<rparr>)
      | (None, b) \<Rightarrow> apply_operations rest (self1\<lparr>broker := b\<rparr>))"

fun apply_chain ::
  "'b operation list option list \<Rightarrow> ('t, 'g, 'b, 'm) controller
     \<Rightarrow> error option \<times> ('t, 'g, 'b, 'm) controller" where
  "apply_chain [] self = (None, self)"
| "apply_chain (None # rest) self = (Some TypeError, self)"
| "apply_chain (Some ops # rest) self =
     (case apply_operations ops self of
        (Some e, self1) \<Rightarrow> (Some e, self1)
      | (None, self1) \<Rightarrow> apply_chain rest self1)"

definition execute_tick ::
  "('t, 'g, 'b, 'm) controller \<Rightarrow> 't \<Rightarrow> error option \<times> ('t, 'g, 'b, 'm) controller" where
  "execute_tick self tick =
     (case tick_strategies (strategies self) tick (log_call (ExecuteTickCalled tick) self) of
        (Inl e, self1) \<Rightarrow> (Some e, self1)
      | (Inr operations, self1) \<Rightarrow> apply_chain (filter truthy operations) self1)"

text \<open>
  \<^verbatim>\<open>ThreadedControllerMixin.stop\<close>, as far as the loop can see it: the write
  \<^verbatim>\<open>self._stop_requested = True\<close>. The notice it prints and the join of the thread
  are not modelled. It runs on another thread than the loop; \<open>other_thread requested\<close>
  is what that thread has done to the controller between two reads of the flag by the
  loop: called \<open>stop\<close>, or nothing.
\<close>

definition stop :: "('t, 'g, 'b, 'm) controller \<Rightarrow> ('t, 'g, 'b, 'm) controller" where
  "stop self = self\<lparr>stop_requested := True\<rparr>"

definition other_thread ::
  "bool \<Rightarrow> ('t, 'g, 'b, 'm) controller \<Rightarrow> ('t, 'g, 'b, 'm) controller" where
  "other_thread requested self = (if requested then stop self else self)"

text \<open>
  \<^verbatim>\<open>ThreadedControllerMixin._run\<close>, the function the background thread executes
  (\<^verbatim>\<open>run\<close> and \<^verbatim>\<open>run_until_stopped\<close>, which create that thread and wait for it,
  are left out). The loop may run forever (the dummy clock never
  ends), so it takes fuel: \<open>fuel\<close> bounds the number of ticks the \<^verbatim>\<open>for\<close> statement
  asks the clock for, and the outcome \<open>Running\<close> says that the loop was still going when
  the fuel ran out. \<open>requests k\<close> says whether the other thread has called \<open>stop\<close>
  between the loop's read number \<open>k - 1\<close> of \<^verbatim>\<open>_stop_requested\<close> (or the start of
  the run) and its read number \<open>k\<close>; the loop reads the flag twice for each tick, so the
  reads for the \<open>j\<close>-th tick of the \<^verbatim>\<open>for\<close> statement are number \<open>2 * j\<close> and
  \<open>2 * j + 1\<close>.
\<close>

datatype outcome = Returned | Raised error | Running

fun tick_loop ::
  "nat \<Rightarrow> (nat \<Rightarrow> bool) \<Rightarrow> nat \<Rightarrow> 'g \<Rightarrow> ('t, 'g, 'b, 'm) controller
     \<Rightarrow> outcome \<times> ('t, 'g, 'b, 'm) controller" where
  "tick_loop 0 requests k g self = (Running, self)"
| "tick_loop (Suc fuel) requests k g self =
     (case clock_next (clock self) g of
        Inl e \<Rightarrow> (if e = StopIteration then (Returned, self) else (Raised e, self))
      | Inr (tick, g') \<Rightarrow>
          (let self1 = other_thread (requests k) self in
           if stop_requested self1 then (Returned, self1)
           else
             (case execute_tick self1 tick of
                (Some e, self2) \<Rightarrow> (Raised e, self2)
              | (None, self2) \<Rightarrow>
                  (let self3 = other_thread (requests (k + 1)) self2 in
                   if stop_requested self3 then (Returned, self3)
                   else tick_loop fuel requests (k + 2) g' self3))))"

definition thread_run ::
  "nat \<Rightarrow> (nat \<Rightarrow> bool) \<Rightarrow> ('t, 'g, 'b, 'm) controller
     \<Rightarrow> outcome \<times> ('t, 'g, 'b, 'm) controller" where
  "thread_run fuel requests self =
     (let self0 = self\<lparr>is_running := True\<rparr> in
      case clock_next (clock self0) (clock_iter (clock self0)) of
        Inl e \<Rightarrow> (Raised e, self0)
      | Inr (tick, g) \<Rightarrow>
          (case initialize self0 tick of
             (Some e, self1) \<Rightarrow> (Raised e, self1)
           | (None, self1) \<Rightarrow>
               (case tick_loop fuel requests 0 g self1 of
                  (Returned, self2) \<Rightarrow> (Returned, self2\<lparr>is_running := False\<rparr>)
                | (Raised e, self2) \<Rightarrow> (Raised e, self2)
                | (Running, self2) \<Rightarrow> (Running, self2))))"

text \<open>
  Two readings of the log of calls: whether a call belongs to the initialization, and the
  ticks \<open>execute_tick\<close> was called with, in order.
\<close>

fun initializing :: "('t, 'b, 'm) call \<Rightarrow> bool" where
  "initializing (InitializeCalled t) = True"
| "initializing (StartCalled s t) = True"
| "initializing (ExecuteTickCalled t) = False"
| "initializing (TickCalled s t) = False"
| "initializing (OperationCalled operation) = False"

fun executed_ticks :: "('t, 'b, 'm) call list \<Rightarrow> 't list" where
  "executed_ticks [] = []"
| "executed_ticks (ExecuteTickCalled t # cs) = t # executed_ticks cs"
| "executed_ticks (InitializeCalled t # cs) = executed_ticks cs"
| "executed_ticks (StartCalled s t # cs) = executed_ticks cs"
| "executed_ticks (TickCalled s t # cs) = executed_ticks cs"
| "executed_ticks (OperationCalled operation # cs) = executed_ticks cs"

text \<open>
  Two schedules of the other thread: it never calls \<open>stop\<close>, or it calls \<open>stop\<close>
  between the loop's reads number \<open>j - 1\<close> and \<open>j\<close> of the flag.
\<close>

definition no_requests :: "nat \<Rightarrow> bool" where
  "no_requests k = False"

definition request_at :: "nat \<Rightarrow> nat \<Rightarrow> bool" where
  "request_at j k \<longleftrightarrow> k = j"

text \<open>
  The operations of one result as a list: \<^verbatim>\<open>None\<close> has none.
\<close>

fun operations_of :: "'a list option \<Rightarrow> 'a list" where
  "operations_of None = []"
| "operations_of (Some ops) = ops"

section \<open>Sample strategies and operations\<close>

text \<open>
  \<open>recording v\<close> is an operation that appends \<open>v\<close> to a broker that keeps a list of
  what it has seen. \<open>returning r\<close> is a strategy whose \<^verbatim>\<open>tick\<close> returns \<open>r\<close> every
  time, \<open>raising e\<close> one whose \<^verbatim>\<open>tick\<close> raises \<open>e\<close>; their \<^verbatim>\<open>start\<close> does
  nothing and their \<^verbatim>\<open>tick\<close> leaves the broker alone.
\<close>

definition recording :: "'a \<Rightarrow> 'a list operation" where
  "recording v b = (None, b @ [v])"

definition returning :: "'b operation list option \<Rightarrow> ('t, 'b, 'm) strategy" where
  "returning r =
     \<lparr>strategy_start = (\<lambda>b t m. (None, b, m)), strategy_tick = (\<lambda>t b m. (Inr r, b, m))\<rparr>"

definition raising :: "error \<Rightarrow> ('t, 'b, 'm) strategy" where
  "raising e =
     \<lparr>strategy_start = (\<lambda>b t m. (None, b, m)), strategy_tick = (\<lambda>t b m. (Inl e, b, m))\<rparr>"

text \<open>
  \<open>tick_recorder\<close> is a strategy that on each \<^verbatim>\<open>tick\<close> call returns one operation
  recording the tick; \<open>failing_start e\<close> is one whose \<^verbatim>\<open>start\<close> raises \<open>e\<close>.
  \<open>announcing v\<close> is a strategy whose \<^verbatim>\<open>start\<close> makes the broker see \<open>v\<close>, and
  \<open>meddling v r\<close> one whose \<^verbatim>\<open>tick\<close> makes the broker it has kept see \<open>v\<close> before
  it returns \<open>r\<close>.
\<close>

definition tick_recorder :: "('t, 't list, 'm) strategy" where
  "tick_recorder =
     \<lparr>strategy_start = (\<lambda>b t m. (None, b, m)),
      strategy_tick = (\<lambda>t b m. (Inr (Some [recording t]), b, m))\<rparr>"

definition failing_start :: "error \<Rightarrow> ('t, 'b, 'm) strategy" where
  "failing_start e =
     \<lparr>strategy_start = (\<lambda>b t m. (Some e, b, m)), strategy_tick = (\<lambda>t b m. (Inr None, b, m))\<rparr>"

definition announcing :: "'a \<Rightarrow> ('t, 'a list, 'm) strategy" where
  "announcing v =
     \<lparr>strategy_start = (\<lambda>b t m. (None, b @ [v], m)),
      strategy_tick = (\<lambda>t b m. (Inr None, b, m))\<rparr>"

definition meddling :: "'a \<Rightarrow> 'a list operation list option \<Rightarrow> ('t, 'a list, 'm) strategy" where
  "meddling v r =
     \<lparr>strategy_start = (\<lambda>b t m. (None, b, m)),
      strategy_tick = (\<lambda>t b m. (Inr r, b @ [v], m))\<rparr>"

text \<open>
  A controller with the dummy clock, one \<open>tick_recorder\<close> and a broker that has seen
  nothing yet.
\<close>

definition recorder_on_dummy_clock :: "(unit, unit, unit list, unit) controller" where
  "recorder_on_dummy_clock = Controller_init DummyClock [] [tick_recorder] ()"


section \<open>The simulated clock\<close>

text \<open>
  The tick number \<open>j\<close> is before \<open>stop\<close> exactly when \<open>j\<close> is below the count.
\<close>

lemma tick_count_div: "tick_count t_start t_stop td = nat (- ((t_start - t_stop) div td))"
proof -
  have "\<lceil>real_of_int (t_stop - t_start) / real_of_int td\<rceil> = - (- (t_stop - t_start) div td)"
    by (rule ceiling_divide_eq_div)
  then show ?thesis unfolding tick_count_def by (simp only: minus_diff_eq)
qed

lemma below_stop_iff:
  assumes "0 < (td::int)"
  shows "t_start + int j * td < t_stop \<longleftrightarrow> j < tick_count t_start t_stop td"
proof -
  have "t_start + int j * td < t_stop \<longleftrightarrow> (t_start - t_stop + int j * td) < 0" by arith
  also have "\<dots> \<longleftrightarrow> (t_start - t_stop + int j * td) div td < 0"
    by (simp only: pos_imp_zdiv_neg_iff [OF assms])
  also have "(t_start - t_stop + int j * td) div td = (t_start - t_stop) div td + int j"
    using assms by simp
  finally show ?thesis unfolding tick_count_div by linarith
qed

lemma pull_from_Suspended:
  assumes td: "0 < sc_interval self" and stop_max: "sc_stop self \<le> datetime_max" and start_min: "0 \<le> sc_start self"
  shows "j < tick_count (sc_start self) (sc_stop self) (sc_interval self) \<Longrightarrow>
    fst (pull_from n (SimulatedClock_next self) (Suspended (sc_start self + int j * sc_interval self)))
      = map (\<lambda>k. sc_start self + int k * sc_interval self)
          [Suc j ..< min (Suc j + n) (tick_count (sc_start self) (sc_stop self) (sc_interval self))]
    \<and> (case snd (pull_from n (SimulatedClock_next self) (Suspended (sc_start self + int j * sc_interval self)))
          of None \<Rightarrow> Suc j + n \<le> tick_count (sc_start self) (sc_stop self) (sc_interval self)
           | Some e \<Rightarrow> tick_count (sc_start self) (sc_stop self) (sc_interval self) < Suc j + n
                \<and> e = (if sc_start self
                            + int (tick_count (sc_start self) (sc_stop self) (sc_interval self))
                              * sc_interval self \<le> datetime_max
                        then StopIteration else OverflowError))"
proof (induction n arbitrary: j)
  case 0
  then show ?case by simp
next
  case (Suc n)
  let ?N = "tick_count (sc_start self) (sc_stop self) (sc_interval self)"
  let ?c = "sc_start self + int j * sc_interval self"
  have c: "?c < sc_stop self" using below_stop_iff [OF td] Suc.prems by simp
  have next_c: "?c + sc_interval self = sc_start self + int (Suc j) * sc_interval self"
    by (simp add: algebra_simps)
  have nonneg: "0 \<le> ?c + sc_interval self" using td start_min by simp
  show ?case
  proof (cases "Suc j < ?N")
    case True
    then have lt: "?c + sc_interval self < sc_stop self"
      using below_stop_iff [OF td, of "sc_start self" "Suc j" "sc_stop self"] next_c by simp
    then have "?c + sc_interval self \<le> datetime_max" using stop_max by simp
    with nonneg lt have step: "SimulatedClock_next self (Suspended ?c)
        = Inr (?c + sc_interval self, Suspended (?c + sc_interval self))"
      by (simp add: datetime_add_def sim_loop_test_def)
    from Suc.IH [OF True] True show ?thesis
      unfolding pull_from.simps step next_c
      by (auto simp: upt_conv_Cons split: prod.splits option.splits)
  next
    case False
    then have ge: "\<not> ?c + sc_interval self < sc_stop self"
      using below_stop_iff [OF td, of "sc_start self" "Suc j" "sc_stop self"] next_c by simp
    from False Suc.prems have last: "Suc j = ?N" by simp
    have "SimulatedClock_next self (Suspended ?c)
        = Inl (if sc_start self + int ?N * sc_interval self \<le> datetime_max
               then StopIteration else OverflowError)"
      using ge nonneg unfolding last [symmetric] next_c [symmetric]
      by (simp add: datetime_add_def sim_loop_test_def)
    with last show ?thesis by simp
  qed
qed


lemma pull_from_more:
  "snd (pull_from n nxt g) = Some e \<Longrightarrow> pull_from (n + m) nxt g = pull_from n nxt g"
proof (induction n arbitrary: g)
  case 0
  then show ?case by simp
next
  case (Suc n)
  show ?case
  proof (cases "nxt g")
    case (Inl e')
    then show ?thesis by simp
  next
    case (Inr p)
    obtain t g' where p: "p = (t, g')" by (cases p)
    from Suc.prems Inr p have "snd (pull_from n nxt g') = Some e"
      by (simp split: prod.splits)
    from Suc.IH [OF this] Inr p show ?thesis by simp
  qed
qed

lemma pull_Created:
  assumes td: "0 < sc_interval self" and stop_max: "sc_stop self \<le> datetime_max"
    and start_min: "0 \<le> sc_start self" and lt: "sc_start self < sc_stop self"
  shows "fst (pull n (SimulatedClock_iter self))
      = map (\<lambda>k. sc_start self + int k * sc_interval self)
          [0 ..< min n (tick_count (sc_start self) (sc_stop self) (sc_interval self))]"
    and "case snd (pull n (SimulatedClock_iter self))
          of None \<Rightarrow> n \<le> tick_count (sc_start self) (sc_stop self) (sc_interval self)
           | Some e \<Rightarrow> tick_count (sc_start self) (sc_stop self) (sc_interval self) < n
                \<and> e = (if sc_start self
                            + int (tick_count (sc_start self) (sc_stop self) (sc_interval self))
                              * sc_interval self \<le> datetime_max
                        then StopIteration else OverflowError)"
proof -
  let ?N = "tick_count (sc_start self) (sc_stop self) (sc_interval self)"
  have pos: "0 < ?N" using below_stop_iff [OF td, of "sc_start self" 0 "sc_stop self"] lt by simp
  show "fst (pull n (SimulatedClock_iter self))
      = map (\<lambda>k. sc_start self + int k * sc_interval self) [0 ..< min n ?N]"
  proof (cases n)
    case 0
    then show ?thesis by (simp add: pull_def)
  next
    case (Suc m)
    with pull_from_Suspended [OF td stop_max start_min pos, of m] lt pos show ?thesis
      by (cases "pull_from m (SimulatedClock_next self) (Suspended (sc_start self))")
        (simp add: pull_def SimulatedClock_iter_def sim_loop_test_def upt_conv_Cons)
  qed
  show "case snd (pull n (SimulatedClock_iter self))
          of None \<Rightarrow> n \<le> ?N
           | Some e \<Rightarrow> ?N < n
               \<and> e = (if sc_start self + int ?N * sc_interval self \<le> datetime_max
                       then StopIteration else OverflowError)"
  proof (cases n)
    case 0
    then show ?thesis by (simp add: pull_def)
  next
    case (Suc m)
    with pull_from_Suspended [OF td stop_max start_min pos, of m] lt pos show ?thesis
      by (cases "pull_from m (SimulatedClock_next self) (Suspended (sc_start self))")
        (auto simp: pull_def SimulatedClock_iter_def sim_loop_test_def split: option.splits)
  qed
qed

text \<open>
  With the interval zero nothing moves.
\<close>

lemma pull_from_zero_interval:
  assumes "sc_interval self = 0" and "sc_start self < sc_stop self"
    and "valid_datetime (sc_start self)"
  shows "pull_from n (SimulatedClock_next self) (Suspended (sc_start self))
           = (replicate n (sc_start self), None)"
  using assms
  by (induction n) (simp_all add: datetime_add_def sim_loop_test_def valid_datetime_def)

text \<open>
  An int of seconds is stored as it is, in microseconds.
\<close>

lemma timedelta_seconds_PyInt:
  "timedelta_seconds (PyInt n) = Inr td \<Longrightarrow> td = n * 1000000"
  by (simp add: timedelta_microseconds_def split: if_splits)

lemma timedelta_PyInt_range:
  "- 86399999913600 \<le> n \<Longrightarrow> n \<le> 86399999999999 \<Longrightarrow>
     timedelta_seconds (PyInt n) = Inr (n * 1000000)"
proof -
  assume "- 86399999913600 \<le> n" and "n \<le> 86399999999999"
  then have "- 999999999 \<le> n div 86400" and "n div 86400 \<le> 999999999" by linarith+
  moreover have "n * 1000000 div 86400000000 = n div 86400"
    using div_mult_mult2 [of "1000000 :: int" n 86400] by simp
  ultimately show ?thesis by (simp add: timedelta_microseconds_def)
qed

text \<open>
  Claim C3, as the code has it. Let \<open>td\<close> be \<^verbatim>\<open>timedelta(seconds=interval)\<close>, the
  interval as the clock stores it: the interval itself when it is an int, a float
  rounded to whole microseconds. For \<open>start < stop\<close> and \<open>td > 0\<close>, the simulated clock
  produces exactly \<open>ceil((stop - start) / td)\<close> ticks: asked for fewer, it has produced
  that many of them and has not ended; asked for more, it has produced them all and the
  traversal has ended, with \<open>StopIteration\<close> when the last tick plus \<open>td\<close> is still a
  \<^verbatim>\<open>datetime\<close>, and with \<open>OverflowError\<close> when it is not. Consecutive ticks differ
  by \<open>td\<close>, every tick is before \<open>stop\<close>, and the first one is \<open>start\<close>. For \<open>td = 0\<close>
  the clock yields \<open>start\<close> for ever.
\<close>

theorem SimulatedClock_sequence:
  assumes "t_start < t_stop"
    and "valid_datetime t_start" and "valid_datetime t_stop"
    and "SimulatedClock_init t_start t_stop interval = Inr self"
  shows "timedelta_seconds interval = Inr (sc_interval self)
    \<and> (\<forall>n. interval = PyInt n \<longrightarrow> sc_interval self = n * 1000000)
    \<and> (0 < sc_interval self \<longrightarrow>
         (\<exists>ticks.
             length ticks = nat \<lceil>real_of_int (t_stop - t_start) / real_of_int (sc_interval self)\<rceil>
           \<and> (\<forall>n. n \<le> length ticks \<longrightarrow> pull n (SimulatedClock_iter self) = (take n ticks, None))
           \<and> (\<forall>n. length ticks < n \<longrightarrow>
                  pull n (SimulatedClock_iter self)
                    = (ticks, Some (if last ticks + sc_interval self \<le> datetime_max
                                    then StopIteration else OverflowError)))
           \<and> (\<forall>k. Suc k < length ticks \<longrightarrow> ticks ! Suc k - ticks ! k = sc_interval self)
           \<and> (\<forall>t \<in> set ticks. t < t_stop)
           \<and> ticks \<noteq> [] \<and> hd ticks = t_start))
    \<and> (sc_interval self = 0 \<longrightarrow>
         (\<forall>n. pull n (SimulatedClock_iter self) = (replicate n t_start, None)))"
proof (intro conjI impI allI)
  let ?td = "sc_interval self"
  from assms(4) show stored: "timedelta_seconds interval = Inr ?td"
    by (auto simp: SimulatedClock_init_def split: sum.splits)
  from assms(4) have self: "sc_start self = t_start" "sc_stop self = t_stop"
    by (auto simp: SimulatedClock_init_def split: sum.splits)
  have stop_max: "sc_stop self \<le> datetime_max" and start_min: "0 \<le> sc_start self"
    and lt: "sc_start self < sc_stop self"
    using assms(1,2,3) self by (simp_all add: valid_datetime_def)
  {
    fix n assume "interval = PyInt n"
    with stored show "?td = n * 1000000" by (simp add: timedelta_seconds_PyInt)
  }
  {
    fix n assume zero: "?td = 0"
    show "pull n (SimulatedClock_iter self) = (replicate n t_start, None)"
    proof (cases n)
      case 0
      then show ?thesis by (simp add: pull_def)
    next
      case (Suc m)
      from pull_from_zero_interval [OF zero lt, of m] assms(2) self lt Suc show ?thesis
        by (simp add: pull_def SimulatedClock_iter_def sim_loop_test_def)
    qed
  }
  {
    assume td: "0 < ?td"
    let ?N = "tick_count t_start t_stop ?td"
    let ?ticks = "map (\<lambda>k. t_start + int k * ?td) [0 ..< ?N]"
    let ?end = "if t_start + int ?N * ?td \<le> datetime_max then StopIteration else OverflowError"
    note P = pull_Created [OF td stop_max start_min lt, unfolded self]
    have pos: "0 < ?N" using below_stop_iff [OF td, of t_start 0 t_stop] assms(1) by simp
    have small: "pull n (SimulatedClock_iter self) = (take n ?ticks, None)"
      if "n \<le> length ?ticks" for n
    proof -
      from that have that: "n \<le> ?N" by simp
      have "snd (pull n (SimulatedClock_iter self)) = None"
        using P(2) [of n] that by (auto split: option.splits)
      moreover have "fst (pull n (SimulatedClock_iter self)) = take n ?ticks"
        using P(1) [of n] that by (simp add: take_map min_def)
      ultimately show ?thesis by (simp add: prod_eq_iff)
    qed
    have e: "snd (pull (Suc ?N) (SimulatedClock_iter self)) = Some ?end"
      using P(2) [of "Suc ?N"] by (auto split: option.splits)
    have "last ?ticks = t_start + int (?N - 1) * ?td"
      using pos by (simp add: last_map)
    also have "\<dots> + ?td = t_start + int ?N * ?td"
      using pos by (cases ?N) (simp_all add: algebra_simps)
    finally have last: "last ?ticks + ?td = t_start + int ?N * ?td" .
    have large: "pull n (SimulatedClock_iter self)
        = (?ticks, Some (if last ?ticks + ?td \<le> datetime_max then StopIteration else OverflowError))"
      if "length ?ticks < n" for n
    proof -
      from that have that: "?N < n" by simp
      then obtain m where n: "n = Suc ?N + m" using less_iff_Suc_add by auto
      have "pull n (SimulatedClock_iter self) = pull (Suc ?N) (SimulatedClock_iter self)"
        unfolding n pull_def using e [unfolded pull_def] by (rule pull_from_more)
      moreover have "fst (pull (Suc ?N) (SimulatedClock_iter self)) = ?ticks"
        using P(1) [of "Suc ?N"] by simp
      ultimately show ?thesis using e unfolding last by (simp add: prod_eq_iff)
    qed
    have below: "\<forall>t \<in> set ?ticks. t < t_stop"
      using below_stop_iff [OF td, of t_start _ t_stop] by auto
    have diff: "\<forall>k. Suc k < length ?ticks \<longrightarrow> ?ticks ! Suc k - ?ticks ! k = ?td"
      by (simp add: algebra_simps)
    have hd: "?ticks \<noteq> [] \<and> hd ?ticks = t_start"
      using pos by (simp add: hd_map upt_conv_Cons)
    have "length ?ticks = nat \<lceil>real_of_int (t_stop - t_start) / real_of_int ?td\<rceil>"
      by (simp add: tick_count_def)
    with small large below diff hd
    show "\<exists>ticks.
             length ticks = nat \<lceil>real_of_int (t_stop - t_start) / real_of_int ?td\<rceil>
           \<and> (\<forall>n. n \<le> length ticks \<longrightarrow> pull n (SimulatedClock_iter self) = (take n ticks, None))
           \<and> (\<forall>n. length ticks < n \<longrightarrow>
                  pull n (SimulatedClock_iter self)
                    = (ticks, Some (if last ticks + ?td \<le> datetime_max
                                    then StopIteration else OverflowError)))
           \<and> (\<forall>k. Suc k < length ticks \<longrightarrow> ticks ! Suc k - ticks ! k = ?td)
           \<and> (\<forall>t \<in> set ticks. t < t_stop)
           \<and> ticks \<noteq> [] \<and> hd ticks = t_start"
      by blast
  }
qed


text \<open>
  Three floats: \<open>2 ^ - 21\<close> seconds, a little less than half a microsecond, is stored
  as no time at all, and half a second as 500000 microseconds. The float
  \<^verbatim>\<open>2.5e-06\<close> is a little more than two and a half microseconds, but its product
  with \<^verbatim>\<open>1e6\<close> is the double \<open>2.5\<close>, and it is stored as two microseconds.
\<close>

lemma binary_exponent_numeral:
  "binary_exponent (numeral k) q =
     (if 2 \<le> q then binary_exponent (pred_numeral k) (q / 2) + 1
      else if q < 1 then binary_exponent (pred_numeral k) (q * 2) - 1
      else 0)"
  by (simp add: numeral_eq_Suc)

lemma half_microsecond_float:
  "timedelta_seconds (PyFloat (1 / 2097152)) = Inr 0"
proof -
  have "\<lfloor>1 / 2097152 :: rat\<rfloor> = 0" by (rule floor_unique) simp_all
  then have t: "towards_zero (1 / 2097152) = 0" by (simp add: towards_zero_def)
  have e: "binary_exponent 1100 \<bar>15625 / 32768\<bar> = - 2"
    by (simp add: binary_exponent_numeral)
  have u: "(2::rat) powi (- 2 - 52) = 1 / 18014398509481984"
    by (simp add: power_int_minus field_simps)
  have r: "round_double (15625 / 32768) = 15625 / 32768"
    unfolding round_double_def e by (simp add: Let_def u round_half_even_def)
  have "\<lfloor>15625 / 32768 :: rat\<rfloor> = 0" by (rule floor_unique) simp_all
  then have h: "round_half_even (15625 / 32768) = 0" by (simp add: round_half_even_def Let_def)
  show ?thesis by (simp add: t r h timedelta_microseconds_def)
qed


lemma half_second_float:
  "timedelta_seconds (PyFloat (1 / 2)) = Inr 500000"
proof -
  have "\<lfloor>1 / 2 :: rat\<rfloor> = 0" by (rule floor_unique) simp_all
  then have t: "towards_zero (1 / 2) = 0" by (simp add: towards_zero_def)
  have e: "binary_exponent 1100 \<bar>500000\<bar> = 18"
    by (simp add: binary_exponent_numeral)
  have u: "(2::rat) powi (18 - 52) = 1 / 17179869184"
    by (simp add: power_int_minus field_simps)
  have h: "round_half_even (of_int k) = k" for k by (simp add: round_half_even_def)
  have "round_half_even (500000 * 17179869184) = 500000 * 17179869184"
    using h [of "500000 * 17179869184"] by simp
  then have r: "round_double 500000 = 500000"
    unfolding round_double_def e by (simp add: Let_def u)
  from h [of 500000] have "round_half_even 500000 = 500000" by simp
  then show ?thesis by (simp add: t r timedelta_microseconds_def)
qed

lemma two_and_a_half_microseconds_float:
  "timedelta_seconds (PyFloat (5902958103587057 / 2361183241434822606848)) = Inr 2"
proof -
  have "\<lfloor>5902958103587057 / 2361183241434822606848 :: rat\<rfloor> = 0"
    by (rule floor_unique) simp_all
  then have t: "towards_zero (5902958103587057 / 2361183241434822606848) = 0"
    by (simp add: towards_zero_def)
  have p: "(5902958103587057 / 2361183241434822606848 - of_int 0) * 1000000
      = (92233720368547765625 / 36893488147419103232 :: rat)" by simp
  have e: "binary_exponent 1100 \<bar>92233720368547765625 / 36893488147419103232\<bar> = 1"
    by (simp add: binary_exponent_numeral)
  have u: "(2::rat) powi (1 - 52) = 1 / 2251799813685248"
    by (simp add: power_int_minus field_simps)
  have "\<lfloor>92233720368547765625 / 16384 :: rat\<rfloor> = 5629499534213120"
    by (rule floor_unique) simp_all
  then have h: "round_half_even (92233720368547765625 / 16384) = 5629499534213120"
    by (simp add: round_half_even_def Let_def)
  have r: "round_double (92233720368547765625 / 36893488147419103232) = 5 / 2"
    unfolding round_double_def e by (simp add: Let_def u h)
  have "\<lfloor>5 / 2 :: rat\<rfloor> = 2" by (rule floor_unique) simp_all
  then have tie: "round_half_even (5 / 2) = 2" by (simp add: round_half_even_def Let_def)
  show ?thesis
    unfolding timedelta_seconds.simps t p r tie by (simp add: timedelta_microseconds_def)
qed

text \<open>
  The clock from one second to four and a half seconds after \<^verbatim>\<open>datetime.min\<close>: every
  second, four ticks; every \<open>2 ^ - 21\<close> seconds, the first tick for ever. And the clock
  over five microseconds, every \<^verbatim>\<open>2.5e-06\<close> seconds: three ticks, two microseconds
  apart.
\<close>

theorem SimulatedClock_sequence_witness:
  "(1000000::int) < 4500000 \<and> valid_datetime 1000000 \<and> valid_datetime 4500000
   \<and> SimulatedClock_init 1000000 4500000 (PyInt 1)
       = Inr \<lparr>sc_start = 1000000, sc_stop = 4500000, sc_interval = 1000000\<rparr>
   \<and> (0::int) < sc_interval \<lparr>sc_start = 1000000, sc_stop = 4500000, sc_interval = 1000000\<rparr>
   \<and> pull 5 (SimulatedClock_iter \<lparr>sc_start = 1000000, sc_stop = 4500000, sc_interval = 1000000\<rparr>)
       = ([1000000, 2000000, 3000000, 4000000], Some StopIteration)
   \<and> length [1000000, 2000000, 3000000, 4000000 :: int]
       = nat \<lceil>real_of_int (4500000 - 1000000) / real_of_int 1000000\<rceil>
   \<and> SimulatedClock_init 1000000 4500000 (PyFloat (1 / 2097152))
       = Inr \<lparr>sc_start = 1000000, sc_stop = 4500000, sc_interval = 0\<rparr>
   \<and> pull 3 (SimulatedClock_iter \<lparr>sc_start = 1000000, sc_stop = 4500000, sc_interval = 0\<rparr>)
       = ([1000000, 1000000, 1000000], None)
   \<and> SimulatedClock_init 1000000 1000005 (PyFloat (5902958103587057 / 2361183241434822606848))
       = Inr \<lparr>sc_start = 1000000, sc_stop = 1000005, sc_interval = 2\<rparr>
   \<and> pull 4 (SimulatedClock_iter \<lparr>sc_start = 1000000, sc_stop = 1000005, sc_interval = 2\<rparr>)
       = ([1000000, 1000002, 1000004], Some StopIteration)"
proof -
  let ?self = "\<lparr>sc_start = 1000000, sc_stop = 4500000, sc_interval = 1000000\<rparr>"
  let ?still = "\<lparr>sc_start = 1000000, sc_stop = 4500000, sc_interval = 0\<rparr>"
  have h1: "(1000000::int) < 4500000" by simp
  have h3: "valid_datetime 1000000" and h4: "valid_datetime 4500000"
    by (simp_all add: valid_datetime_def datetime_max_def)
  have h5: "SimulatedClock_init 1000000 4500000 (PyInt 1) = Inr ?self"
    by (simp add: SimulatedClock_init_def timedelta_microseconds_def)
  have h6: "SimulatedClock_init 1000000 4500000 (PyFloat (1 / 2097152)) = Inr ?still"
    by (simp add: SimulatedClock_init_def half_microsecond_float del: timedelta_seconds.simps)
  have pos: "(0::int) < sc_interval ?self" by simp
  have run: "pull 5 (SimulatedClock_iter ?self)
      = ([1000000, 2000000, 3000000, 4000000], Some StopIteration)"
    by (simp add: pull_def SimulatedClock_iter_def sim_loop_test_def datetime_add_def
        datetime_max_def eval_nat_numeral)
  from SimulatedClock_sequence [OF h1 h3 h4 h5] pos obtain ticks where
    len: "length ticks = nat \<lceil>real_of_int (4500000 - 1000000) / real_of_int (sc_interval ?self)\<rceil>"
    and large: "\<forall>n. length ticks < n \<longrightarrow> pull n (SimulatedClock_iter ?self)
        = (ticks, Some (if last ticks + sc_interval ?self \<le> datetime_max
                        then StopIteration else OverflowError))"
    by blast
  from len have "length ticks < 5" by simp
  with large run have "ticks = [1000000, 2000000, 3000000, 4000000]" by simp
  with len have count: "length [1000000, 2000000, 3000000, 4000000 :: int]
       = nat \<lceil>real_of_int (4500000 - 1000000) / real_of_int 1000000\<rceil>" by simp
  from SimulatedClock_sequence [OF h1 h3 h4 h6]
  have "pull 3 (SimulatedClock_iter ?still) = (replicate 3 1000000, None)" by simp
  then have still: "pull 3 (SimulatedClock_iter ?still) = ([1000000, 1000000, 1000000], None)"
    by (simp add: numeral_3_eq_3)
  have h7: "SimulatedClock_init 1000000 1000005
        (PyFloat (5902958103587057 / 2361183241434822606848))
      = Inr \<lparr>sc_start = 1000000, sc_stop = 1000005, sc_interval = 2\<rparr>"
    by (simp add: SimulatedClock_init_def two_and_a_half_microseconds_float
        del: timedelta_seconds.simps)
  have short: "pull 4 (SimulatedClock_iter \<lparr>sc_start = 1000000, sc_stop = 1000005, sc_interval = 2\<rparr>)
      = ([1000000, 1000002, 1000004], Some StopIteration)"
    by (simp add: pull_def SimulatedClock_iter_def sim_loop_test_def datetime_add_def
        datetime_max_def eval_nat_numeral)
  from h1 h3 h4 h5 pos run count h6 still h7 short show ?thesis by blast
qed

text \<open>
  Claim C3, as stated, fails twice. With the interval \<open>2 ^ - 21\<close> seconds and \<open>stop\<close>
  one microsecond after \<open>start\<close>, \<open>ceil((stop - start) / interval)\<close> is 3, but the clock
  has produced four ticks, all equal to \<open>start\<close>, and has not ended. And with \<open>stop\<close>
  at \<^verbatim>\<open>datetime.max\<close>, \<open>start\<close> a second and a half before and the interval one
  second, the traversal ends after its two ticks with \<open>OverflowError\<close>.
\<close>

theorem SimulatedClock_sequence_counterexample:
  "SimulatedClock_init 10000000 10000001 (PyFloat (1 / 2097152))
       = Inr \<lparr>sc_start = 10000000, sc_stop = 10000001, sc_interval = 0\<rparr>
   \<and> nat \<lceil>(1 / 1000000) / (1 / 2097152) :: real\<rceil> = 3
   \<and> pull 4 (SimulatedClock_iter \<lparr>sc_start = 10000000, sc_stop = 10000001, sc_interval = 0\<rparr>)
       = ([10000000, 10000000, 10000000, 10000000], None)
   \<and> SimulatedClock_init 315537897598499999 315537897599999999 (PyInt 1)
       = Inr \<lparr>sc_start = 315537897598499999, sc_stop = 315537897599999999,
              sc_interval = 1000000\<rparr>
   \<and> pull 3 (SimulatedClock_iter
         \<lparr>sc_start = 315537897598499999, sc_stop = 315537897599999999, sc_interval = 1000000\<rparr>)
       = ([315537897598499999, 315537897599499999], Some OverflowError)"
proof -
  have "\<lceil>(1 / 1000000) / (1 / 2097152) :: real\<rceil> = 3"
    by (rule ceiling_unique) simp_all
  then have count: "nat \<lceil>(1 / 1000000) / (1 / 2097152) :: real\<rceil> = 3" by simp
  have float: "SimulatedClock_init 10000000 10000001 (PyFloat (1 / 2097152))
       = Inr \<lparr>sc_start = 10000000, sc_stop = 10000001, sc_interval = 0\<rparr>"
    by (simp add: SimulatedClock_init_def half_microsecond_float del: timedelta_seconds.simps)
  have still: "pull 4 (SimulatedClock_iter \<lparr>sc_start = 10000000, sc_stop = 10000001, sc_interval = 0\<rparr>)
       = ([10000000, 10000000, 10000000, 10000000], None)"
    by (simp add: pull_def SimulatedClock_iter_def sim_loop_test_def datetime_add_def
        datetime_max_def eval_nat_numeral)
  have late: "SimulatedClock_init 315537897598499999 315537897599999999 (PyInt 1)
       = Inr \<lparr>sc_start = 315537897598499999, sc_stop = 315537897599999999,
              sc_interval = 1000000\<rparr>"
    by (simp add: SimulatedClock_init_def timedelta_microseconds_def)
  have overflow: "pull 3 (SimulatedClock_iter
         \<lparr>sc_start = 315537897598499999, sc_stop = 315537897599999999, sc_interval = 1000000\<rparr>)
       = ([315537897598499999, 315537897599499999], Some OverflowError)"
    by (simp add: pull_def SimulatedClock_iter_def sim_loop_test_def datetime_add_def
        datetime_max_def eval_nat_numeral)
  from float count still late overflow show ?thesis by blast
qed

text \<open>
  Claim C8. A simulated clock whose \<open>stop\<close> is not after its \<open>start\<close> produces no
  tick: the first request already finds the traversal exhausted (\<open>StopIteration\<close>,
  the regular end of an iteration), whatever the interval, and constructing
  such a clock raises nothing.
\<close>

theorem SimulatedClock_empty:
  assumes "t_stop \<le> t_start"
    and "timedelta_seconds interval = Inr td"
  shows "\<exists>self. SimulatedClock_init t_start t_stop interval = Inr self
           \<and> pull (Suc n) (SimulatedClock_iter self) = ([], Some StopIteration)"
  using assms
  by (simp add: SimulatedClock_init_def pull_def SimulatedClock_iter_def sim_loop_test_def)

theorem SimulatedClock_empty_witness:
  "(5000000::int) \<le> 7000000 \<and> timedelta_seconds (PyInt 2) = Inr 2000000
   \<and> SimulatedClock_init 7000000 5000000 (PyInt 2)
       = Inr \<lparr>sc_start = 7000000, sc_stop = 5000000, sc_interval = 2000000\<rparr>
   \<and> pull 3 \<lparr>clock_iter = Created,
        clock_next = SimulatedClock_next \<lparr>sc_start = 7000000, sc_stop = 5000000, sc_interval = 2000000\<rparr>\<rparr>
       = ([], Some StopIteration)"
proof -
  have h1: "(5000000::int) \<le> 7000000" by simp
  have h2: "timedelta_seconds (PyInt 2) = Inr 2000000" by (simp add: timedelta_microseconds_def)
  from SimulatedClock_empty [OF h1 h2, of 2] h1 h2 show ?thesis
    by (simp add: SimulatedClock_init_def SimulatedClock_iter_def numeral_3_eq_3)
qed

subsection \<open>The interval is not checked\<close>

text \<open>
  Claim C4, as the code has it. \<^verbatim>\<open>SimulatedClock.__init__\<close> checks nothing: a zero or
  negative interval that \<^verbatim>\<open>timedelta\<close> can hold (down to \<open>-999999999\<close> days) is
  stored as it is and no error is raised. With the interval zero and \<open>start < stop\<close>
  the traversal then never ends: however many ticks are asked for, that many are
  produced, each equal to \<open>start\<close>.
\<close>

theorem SimulatedClock_interval_unchecked:
  assumes "interval \<le> 0" and "- 86399999913600 \<le> interval"
  shows "SimulatedClock_init t_start t_stop (PyInt interval)
           = Inr \<lparr>sc_start = t_start, sc_stop = t_stop, sc_interval = interval * 1000000\<rparr>
       \<and> (interval = 0 \<and> t_start < t_stop \<and> valid_datetime t_start \<longrightarrow>
            (\<forall>n. pull n (SimulatedClock_iter
                     \<lparr>sc_start = t_start, sc_stop = t_stop, sc_interval = interval * 1000000\<rparr>)
                   = (replicate n t_start, None)))"
proof -
  have "timedelta_seconds (PyInt interval) = Inr (interval * 1000000)"
    using assms by (intro timedelta_PyInt_range) simp_all
  then have init: "SimulatedClock_init t_start t_stop (PyInt interval)
      = Inr \<lparr>sc_start = t_start, sc_stop = t_stop, sc_interval = interval * 1000000\<rparr>"
    by (simp add: SimulatedClock_init_def)
  have "pull n (SimulatedClock_iter \<lparr>sc_start = t_start, sc_stop = t_stop, sc_interval = 0\<rparr>)
      = (replicate n t_start, None)" if "t_start < t_stop" "valid_datetime t_start" for n
  proof (cases n)
    case 0
    then show ?thesis by (simp add: pull_def)
  next
    case (Suc m)
    let ?self = "\<lparr>sc_start = t_start, sc_stop = t_stop, sc_interval = 0\<rparr>"
    from that pull_from_zero_interval [of ?self m] Suc show ?thesis
      by (simp add: pull_def SimulatedClock_iter_def sim_loop_test_def)
  qed
  with init show ?thesis by simp
qed

theorem SimulatedClock_interval_unchecked_witness:
  "(0::int) \<le> 0 \<and> - 86399999913600 \<le> (0::int)
   \<and> SimulatedClock_init 1000000 4500000 (PyInt 0)
       = Inr \<lparr>sc_start = 1000000, sc_stop = 4500000, sc_interval = 0\<rparr>
   \<and> pull 3 (SimulatedClock_iter \<lparr>sc_start = 1000000, sc_stop = 4500000, sc_interval = 0\<rparr>)
       = ([1000000, 1000000, 1000000], None)"
proof -
  have h1: "(0::int) \<le> 0" and h2: "- 86399999913600 \<le> (0::int)" by simp_all
  have h3: "(0::int) = 0 \<and> (1000000::int) < 4500000 \<and> valid_datetime 1000000"
    by (simp add: valid_datetime_def datetime_max_def)
  from SimulatedClock_interval_unchecked [OF h1 h2, of 1000000 4500000] h3 h1 h2
  show ?thesis by (simp add: numeral_3_eq_3)
qed

text \<open>
  Claim C4, as stated, fails: the constructor returns a clock for the interval \<open>0\<close> and
  for the interval \<open>-1\<close>.
\<close>

theorem SimulatedClock_accepts_bad_interval:
  "SimulatedClock_init 1000000 4500000 (PyInt 0)
       = Inr \<lparr>sc_start = 1000000, sc_stop = 4500000, sc_interval = 0\<rparr>
   \<and> SimulatedClock_init 1000000 4500000 (PyInt (- 1))
       = Inr \<lparr>sc_start = 1000000, sc_stop = 4500000, sc_interval = - 1000000\<rparr>"
  by (simp add: SimulatedClock_init_def timedelta_microseconds_def)

section \<open>One tick: \<open>execute_tick\<close>\<close>

lemma log_call_fields [simp]:
  "clock (log_call c self) = clock self"
  "broker (log_call c self) = broker self"
  "strategies (log_call c self) = strategies self"
  "stop_requested (log_call c self) = stop_requested self"
  "is_running (log_call c self) = is_running self"
  "memory (log_call c self) = memory self"
  "calls (log_call c self) = calls self @ [c]"
  by (simp_all add: log_call_def)

text \<open>
  The filter and the chain together apply the flattened results.
\<close>

lemma apply_operations_append:
  "apply_operations (xs @ ys) self =
     (case apply_operations xs self of
        (Some e, self1) \<Rightarrow> (Some e, self1)
      | (None, self1) \<Rightarrow> apply_operations ys self1)"
proof (induction xs arbitrary: self)
  case Nil
  then show ?case by simp
next
  case (Cons x xs)
  show ?case
  proof (cases "x (broker (log_call (OperationCalled x) self))")
    case (Pair r b)
    with Cons.IH show ?thesis by (cases r) (simp_all add: Let_def)
  qed
qed

lemma apply_chain_filter:
  "apply_chain (filter truthy rs) self = apply_operations (concat (map operations_of rs)) self"
proof (induction rs arbitrary: self)
  case Nil
  then show ?case by simp
next
  case (Cons r rs)
  show ?case
  proof (cases "truthy r")
    case False
    then have "operations_of r = []" by (cases r rule: truthy.cases) simp_all
    with False Cons.IH show ?thesis by simp
  next
    case True
    then obtain ops where r: "r = Some ops" by (cases r rule: truthy.cases) simp_all
    show ?thesis
    proof (cases "apply_operations ops self")
      case (Pair res self1)
      with True r Cons.IH show ?thesis
        by (cases res) (simp_all add: apply_operations_append)
    qed
  qed
qed

lemma apply_operations_frame:
  "apply_operations ops self = (r, self') \<Longrightarrow>
     clock self' = clock self \<and> strategies self' = strategies self
     \<and> stop_requested self' = stop_requested self \<and> is_running self' = is_running self
     \<and> memory self' = memory self"
proof (induction ops arbitrary: self)
  case Nil
  then show ?case by simp
next
  case (Cons x xs)
  show ?case
  proof (cases "x (broker (log_call (OperationCalled x) self))")
    case (Pair res b)
    show ?thesis
    proof (cases res)
      case None
      with Pair Cons.prems have "apply_operations xs ((log_call (OperationCalled x) self)\<lparr>broker := b\<rparr>) = (r, self')"
        by (simp add: Let_def)
      from Cons.IH [OF this] show ?thesis by simp
    next
      case (Some e)
      with Pair Cons.prems show ?thesis by (auto simp: Let_def)
    qed
  qed
qed

lemma apply_operations_calls:
  "apply_operations ops self = (r, self') \<Longrightarrow>
     \<exists>k. k \<le> length ops \<and> calls self' = calls self @ map OperationCalled (take k ops)
       \<and> (r = None \<longrightarrow> k = length ops)"
proof (induction ops arbitrary: self)
  case Nil
  then show ?case by simp
next
  case (Cons x xs)
  show ?case
  proof (cases "x (broker (log_call (OperationCalled x) self))")
    case (Pair res b)
    show ?thesis
    proof (cases res)
      case None
      with Pair Cons.prems have "apply_operations xs ((log_call (OperationCalled x) self)\<lparr>broker := b\<rparr>) = (r, self')"
        by (simp add: Let_def)
      from Cons.IH [OF this] obtain k where
        k: "k \<le> length xs" "calls self' = calls self @ OperationCalled x # map OperationCalled (take k xs)"
        "r = None \<longrightarrow> k = length xs" by auto
      then show ?thesis by (intro exI [of _ "Suc k"]) simp
    next
      case (Some e)
      with Pair Cons.prems show ?thesis by (intro exI [of _ "Suc 0"]) (auto simp: Let_def)
    qed
  qed
qed

lemma tick_strategies_calls:
  "tick_strategies ss tick self = (r, self') \<Longrightarrow>
     \<exists>k. k \<le> length ss \<and> calls self' = calls self @ map (\<lambda>s. TickCalled s tick) (take k ss)
       \<and> (\<forall>rs. r = Inr rs \<longrightarrow> k = length ss \<and> length rs = length ss)
       \<and> clock self' = clock self \<and> strategies self' = strategies self
       \<and> stop_requested self' = stop_requested self \<and> is_running self' = is_running self"
proof (induction ss arbitrary: self r self')
  case Nil
  then show ?case by auto
next
  case (Cons s ss)
  let ?self1 = "log_call (TickCalled s tick) self"
  obtain res b m where st: "strategy_tick s tick (broker ?self1) (memory ?self1) = (res, b, m)"
    by (cases "strategy_tick s tick (broker ?self1) (memory ?self1)")
  show ?case
  proof (cases res)
    case (Inl e)
    with st Cons.prems show ?thesis by (intro exI [of _ "Suc 0"]) (auto simp: Let_def)
  next
    case (Inr x)
    let ?next = "?self1\<lparr>broker := b, memory := m\<rparr>"
    obtain r2 self2 where rest: "tick_strategies ss tick ?next = (r2, self2)"
      by (cases "tick_strategies ss tick ?next")
    from Cons.IH [OF rest] obtain k where
      k: "k \<le> length ss" "calls self2 = calls self @ TickCalled s tick # map (\<lambda>s. TickCalled s tick) (take k ss)"
      "\<forall>rs. r2 = Inr rs \<longrightarrow> k = length ss \<and> length rs = length ss"
      "clock self2 = clock self" "strategies self2 = strategies self"
      "stop_requested self2 = stop_requested self" "is_running self2 = is_running self" by auto
    from st Inr rest Cons.prems have "self' = self2" and r: "r = (case r2 of Inl e \<Rightarrow> Inl e | Inr rs \<Rightarrow> Inr (x # rs))"
      by (auto simp: Let_def split: sum.splits)
    with k show ?thesis by (intro exI [of _ "Suc k"]) (auto split: sum.splits)
  qed
qed

text \<open>
  The broker after the \<^verbatim>\<open>tick\<close> calls is the one before them when no strategy
  touches the broker inside \<^verbatim>\<open>tick\<close>.
\<close>

lemma tick_strategies_broker:
  "tick_strategies ss tick self = (r, self') \<Longrightarrow>
     \<forall>s \<in> set ss. leaves_broker_alone s \<Longrightarrow> broker self' = broker self"
proof (induction ss arbitrary: self r self')
  case Nil
  then show ?case by auto
next
  case (Cons s ss)
  let ?self1 = "log_call (TickCalled s tick) self"
  obtain res b m where st: "strategy_tick s tick (broker ?self1) (memory ?self1) = (res, b, m)"
    by (cases "strategy_tick s tick (broker ?self1) (memory ?self1)")
  from Cons.prems(2) have "leaves_broker_alone s" by simp
  with st have b: "b = broker self"
    unfolding leaves_broker_alone_def by (metis fst_conv snd_conv log_call_fields(2))
  show ?case
  proof (cases res)
    case (Inl e)
    with st b Cons.prems show ?thesis by (auto simp: Let_def)
  next
    case (Inr x)
    let ?next = "?self1\<lparr>broker := b, memory := m\<rparr>"
    obtain r2 self2 where rest: "tick_strategies ss tick ?next = (r2, self2)"
      by (cases "tick_strategies ss tick ?next")
    from Cons.prems(2) have "\<forall>s \<in> set ss. leaves_broker_alone s" by simp
    from Cons.IH [OF rest this] b have "broker self2 = broker self" by simp
    moreover from st Inr rest Cons.prems(1) have "self' = self2"
      by (auto simp: Let_def split: sum.splits)
    ultimately show ?thesis by simp
  qed
qed

lemma tick_strategies_append:
  "tick_strategies (xs @ ys) tick self =
     (case tick_strategies xs tick self of
        (Inl e, self1) \<Rightarrow> (Inl e, self1)
      | (Inr rs, self1) \<Rightarrow>
          (case tick_strategies ys tick self1 of
             (Inl e, self2) \<Rightarrow> (Inl e, self2)
           | (Inr rs', self2) \<Rightarrow> (Inr (rs @ rs'), self2)))"
proof (induction xs arbitrary: self)
  case Nil
  then show ?case by (simp split: prod.splits sum.splits)
next
  case (Cons x xs)
  then show ?case by (simp add: Let_def split: prod.splits sum.splits)
qed

lemma tick_strategies_results:
  "tick_strategies ss tick self = (Inr rs, self') \<Longrightarrow>
     list_all2 (\<lambda>s r. \<exists>b m b' m'. strategy_tick s tick b m = (Inr r, b', m')) ss rs"
proof (induction ss arbitrary: self rs)
  case Nil
  then show ?case by simp
next
  case (Cons s ss)
  then show ?case
    by (auto simp: Let_def split: prod.splits sum.splits)
qed

text \<open>
  Claim C2. When every strategy's \<^verbatim>\<open>tick\<close> call has returned, \<open>execute_tick\<close> applies
  to the broker the operations of the results flattened in the order of the strategies,
  and within one strategy in the order it returned them: the results are those of the
  strategies in declaration order, the calls are first the \<^verbatim>\<open>tick\<close> call of every
  strategy and then the operations, as a prefix of the flattened list that is the whole
  list unless an operation raises.
\<close>

theorem execute_tick_order:
  assumes "tick_strategies (strategies self) tick (log_call (ExecuteTickCalled tick) self)
             = (Inr results, self1)"
  shows "execute_tick self tick = apply_operations (concat (map operations_of results)) self1
       \<and> list_all2 (\<lambda>s r. \<exists>b m b' m'. strategy_tick s tick b m = (Inr r, b', m'))
           (strategies self) results
       \<and> calls self1
           = calls self @ ExecuteTickCalled tick # map (\<lambda>s. TickCalled s tick) (strategies self)
       \<and> (\<exists>k. k \<le> length (concat (map operations_of results))
             \<and> calls (snd (execute_tick self tick))
                 = calls self1 @ map OperationCalled (take k (concat (map operations_of results)))
             \<and> (fst (execute_tick self tick) = None
                  \<longrightarrow> k = length (concat (map operations_of results))))"
proof -
  let ?flat = "concat (map operations_of results)"
  have run: "execute_tick self tick = apply_operations ?flat self1"
    using assms by (simp add: execute_tick_def apply_chain_filter)
  have res: "list_all2 (\<lambda>s r. \<exists>b m b' m'. strategy_tick s tick b m = (Inr r, b', m'))
      (strategies self) results"
    using tick_strategies_results [OF assms] .
  have ticks: "calls self1
      = calls self @ ExecuteTickCalled tick # map (\<lambda>s. TickCalled s tick) (strategies self)"
    using tick_strategies_calls [OF assms] by auto
  obtain r self' where ops: "apply_operations ?flat self1 = (r, self')"
    by (cases "apply_operations ?flat self1")
  from apply_operations_calls [OF ops] run ops
  have "\<exists>k. k \<le> length ?flat
       \<and> calls (snd (execute_tick self tick)) = calls self1 @ map OperationCalled (take k ?flat)
       \<and> (fst (execute_tick self tick) = None \<longrightarrow> k = length ?flat)"
    by simp
  with run res ticks show ?thesis by blast
qed

text \<open>
  Strategies \<open>[A, B]\<close>, where \<open>A\<close> returns \<open>[op1, op2]\<close> and \<open>B\<close> returns \<open>[op3]\<close>:
  the broker sees \<open>op1\<close>, \<open>op2\<close>, \<open>op3\<close>.
\<close>

theorem execute_tick_order_witness:
  "tick_strategies
     (strategies (Controller_init DummyClock [] [returning (Some [recording ''op1'', recording ''op2'']),
        returning (Some [recording ''op3''])] ()))
     () (log_call (ExecuteTickCalled ())
       (Controller_init DummyClock [] [returning (Some [recording ''op1'', recording ''op2'']),
        returning (Some [recording ''op3''])] ()))
     = (Inr [Some [recording ''op1'', recording ''op2''], Some [recording ''op3'']],
        \<lparr>clock = DummyClock, broker = [],
         strategies = [returning (Some [recording ''op1'', recording ''op2'']), returning (Some [recording ''op3''])],
         stop_requested = False, is_running = False, memory = (),
         calls = [ExecuteTickCalled (), TickCalled (returning (Some [recording ''op1'', recording ''op2''])) (),
                  TickCalled (returning (Some [recording ''op3''])) ()]\<rparr>)
   \<and> execute_tick
       (Controller_init DummyClock [] [returning (Some [recording ''op1'', recording ''op2'']),
          returning (Some [recording ''op3''])] ()) ()
     = (None,
        \<lparr>clock = DummyClock, broker = [''op1'', ''op2'', ''op3''],
         strategies = [returning (Some [recording ''op1'', recording ''op2'']), returning (Some [recording ''op3''])],
         stop_requested = False, is_running = False, memory = (),
         calls = [ExecuteTickCalled (), TickCalled (returning (Some [recording ''op1'', recording ''op2''])) (),
                  TickCalled (returning (Some [recording ''op3''])) (),
                  OperationCalled (recording ''op1''), OperationCalled (recording ''op2''),
                  OperationCalled (recording ''op3'')]\<rparr>)"
proof -
  let ?A = "returning (Some [recording ''op1'', recording ''op2'']) :: (unit, string list, unit) strategy"
  let ?B = "returning (Some [recording ''op3'']) :: (unit, string list, unit) strategy"
  let ?self = "Controller_init DummyClock [] [?A, ?B] ()"
  let ?self1 = "\<lparr>clock = DummyClock, broker = [], strategies = [?A, ?B],
         stop_requested = False, is_running = False, memory = (),
         calls = [ExecuteTickCalled (), TickCalled ?A (), TickCalled ?B ()]\<rparr>"
  have h: "tick_strategies (strategies ?self) () (log_call (ExecuteTickCalled ()) ?self)
      = (Inr [Some [recording ''op1'', recording ''op2''], Some [recording ''op3'']], ?self1)"
    by (simp add: Controller_init_def log_call_def returning_def)
  from execute_tick_order [OF h] have "execute_tick ?self ()
      = apply_operations (concat (map operations_of [Some [recording ''op1'', recording ''op2''], Some [recording ''op3'']])) ?self1"
    by blast
  then have "execute_tick ?self () = (None,
        \<lparr>clock = DummyClock, broker = [''op1'', ''op2'', ''op3''], strategies = [?A, ?B],
         stop_requested = False, is_running = False, memory = (),
         calls = [ExecuteTickCalled (), TickCalled ?A (), TickCalled ?B (),
                  OperationCalled (recording ''op1''), OperationCalled (recording ''op2''),
                  OperationCalled (recording ''op3'')]\<rparr>)"
    by (simp add: log_call_def recording_def)
  with h show ?thesis by simp
qed


text \<open>
  Claim C7. A result that is not true in Python (\<^verbatim>\<open>None\<close> or the empty list)
  contributes no operation, and the operations of the strategies before and after it
  are applied as if it were not there.
\<close>

theorem execute_tick_empty_result:
  assumes "tick_strategies (strategies self) tick (log_call (ExecuteTickCalled tick) self)
             = (Inr (before @ r # after), self1)"
    and "\<not> truthy r"
  shows "(r = None \<or> r = Some [])
       \<and> execute_tick self tick
           = apply_operations
               (concat (map operations_of before) @ concat (map operations_of after)) self1
       \<and> (\<exists>k. k \<le> length (concat (map operations_of (before @ after)))
             \<and> calls (snd (execute_tick self tick))
                 = calls self @ ExecuteTickCalled tick
                     # map (\<lambda>s. TickCalled s tick) (strategies self)
                     @ map OperationCalled (take k (concat (map operations_of (before @ after))))
             \<and> (fst (execute_tick self tick) = None
                  \<longrightarrow> k = length (concat (map operations_of (before @ after)))))"
proof -
  let ?flat = "concat (map operations_of before) @ concat (map operations_of after)"
  from assms(2) have r: "r = None \<or> r = Some []" by (cases r rule: truthy.cases) simp_all
  then have empty: "operations_of r = []" by auto
  have run: "execute_tick self tick = apply_operations ?flat self1"
  proof -
    have "execute_tick self tick = apply_chain (filter truthy (before @ r # after)) self1"
      using assms(1) by (simp add: execute_tick_def)
    also have "\<dots> = apply_operations (concat (map operations_of (before @ r # after))) self1"
      by (rule apply_chain_filter)
    also have "concat (map operations_of (before @ r # after)) = ?flat"
      using empty by simp
    finally show ?thesis .
  qed
  have ticks: "calls self1
      = calls self @ ExecuteTickCalled tick # map (\<lambda>s. TickCalled s tick) (strategies self)"
    using tick_strategies_calls [OF assms(1)] by auto
  obtain res self' where ops: "apply_operations ?flat self1 = (res, self')"
    by (cases "apply_operations ?flat self1")
  from apply_operations_calls [OF ops] run ops ticks
  have "\<exists>k. k \<le> length (concat (map operations_of (before @ after)))
       \<and> calls (snd (execute_tick self tick))
           = calls self @ ExecuteTickCalled tick # map (\<lambda>s. TickCalled s tick) (strategies self)
               @ map OperationCalled (take k (concat (map operations_of (before @ after))))
       \<and> (fst (execute_tick self tick) = None
            \<longrightarrow> k = length (concat (map operations_of (before @ after))))"
    by simp
  with r run show ?thesis by blast
qed

text \<open>
  Strategies \<open>[A, B]\<close>, where \<open>A\<close> returns \<open>[]\<close> and \<open>B\<close> returns \<open>[op1]\<close>: exactly
  \<open>op1\<close> is applied.
\<close>

theorem execute_tick_empty_result_witness:
  "tick_strategies
     (strategies (Controller_init DummyClock [] [returning (Some []),
        returning (Some [recording ''op1''])] ()))
     () (log_call (ExecuteTickCalled ())
       (Controller_init DummyClock [] [returning (Some []),
        returning (Some [recording ''op1''])] ()))
     = (Inr ([] @ Some [] # [Some [recording ''op1'']]),
        \<lparr>clock = DummyClock, broker = [],
         strategies = [returning (Some []), returning (Some [recording ''op1''])],
         stop_requested = False, is_running = False, memory = (),
         calls = [ExecuteTickCalled (), TickCalled (returning (Some [])) (),
                  TickCalled (returning (Some [recording ''op1''])) ()]\<rparr>)
   \<and> \<not> truthy (Some ([] :: string list operation list))
   \<and> execute_tick
       (Controller_init DummyClock [] [returning (Some []),
          returning (Some [recording ''op1''])] ()) ()
     = (None,
        \<lparr>clock = DummyClock, broker = [''op1''],
         strategies = [returning (Some []), returning (Some [recording ''op1''])],
         stop_requested = False, is_running = False, memory = (),
         calls = [ExecuteTickCalled (), TickCalled (returning (Some [])) (),
                  TickCalled (returning (Some [recording ''op1''])) (),
                  OperationCalled (recording ''op1'')]\<rparr>)"
proof -
  let ?A = "returning (Some []) :: (unit, string list, unit) strategy"
  let ?B = "returning (Some [recording ''op1'']) :: (unit, string list, unit) strategy"
  let ?self = "Controller_init DummyClock [] [?A, ?B] ()"
  let ?self1 = "\<lparr>clock = DummyClock, broker = [], strategies = [?A, ?B],
         stop_requested = False, is_running = False, memory = (),
         calls = [ExecuteTickCalled (), TickCalled ?A (), TickCalled ?B ()]\<rparr>"
  have h1: "tick_strategies (strategies ?self) () (log_call (ExecuteTickCalled ()) ?self)
      = (Inr ([] @ Some [] # [Some [recording ''op1'']]), ?self1)"
    by (simp add: Controller_init_def log_call_def returning_def)
  have h2: "\<not> truthy (Some ([] :: string list operation list))" by simp
  from execute_tick_empty_result [OF h1 h2] have "execute_tick ?self ()
      = apply_operations (concat (map operations_of [])
          @ concat (map operations_of [Some [recording ''op1'']])) ?self1"
    by blast
  then have "execute_tick ?self () = (None,
        \<lparr>clock = DummyClock, broker = [''op1''], strategies = [?A, ?B],
         stop_requested = False, is_running = False, memory = (),
         calls = [ExecuteTickCalled (), TickCalled ?A (), TickCalled ?B (),
                  OperationCalled (recording ''op1'')]\<rparr>)"
    by (simp add: log_call_def recording_def)
  with h1 h2 show ?thesis by blast
qed

text \<open>
  Claim C9, as the code has it. The calls of \<open>execute_tick\<close> are \<^verbatim>\<open>tick\<close> calls on a
  prefix of the strategies followed by operations, and an operation is applied only
  after every strategy has been asked. So when the \<^verbatim>\<open>tick\<close> call of a strategy
  raises, after those of the strategies before it have returned, \<open>execute_tick\<close> raises
  the same exception and no operation is applied: the broker is as the \<^verbatim>\<open>tick\<close>
  calls themselves have left it, which is the broker \<open>execute_tick\<close> started with when
  every strategy leaves the broker alone.
\<close>

theorem execute_tick_tick_raises:
  "(\<exists>k ops. k \<le> length (strategies self)
       \<and> calls (snd (execute_tick self tick))
           = calls self @ ExecuteTickCalled tick
               # map (\<lambda>s. TickCalled s tick) (take k (strategies self)) @ map OperationCalled ops
       \<and> (ops \<noteq> [] \<longrightarrow> k = length (strategies self)))
   \<and> (strategies self = before @ s # after
       \<and> tick_strategies before tick (log_call (ExecuteTickCalled tick) self) = (Inr rs, ticked)
       \<and> strategy_tick s tick (broker ticked) (memory ticked) = (Inl e, b, m)
      \<longrightarrow> execute_tick self tick
            = (Some e, (log_call (TickCalled s tick) ticked)\<lparr>broker := b, memory := m\<rparr>)
          \<and> calls (snd (execute_tick self tick))
              = calls self @ ExecuteTickCalled tick # map (\<lambda>s. TickCalled s tick) (before @ [s])
          \<and> ((\<forall>s' \<in> set (strategies self). leaves_broker_alone s')
               \<longrightarrow> broker (snd (execute_tick self tick)) = broker self))"
proof (intro conjI impI)
  let ?self0 = "log_call (ExecuteTickCalled tick) self"
  show "\<exists>k ops. k \<le> length (strategies self)
       \<and> calls (snd (execute_tick self tick))
           = calls self @ ExecuteTickCalled tick
               # map (\<lambda>s. TickCalled s tick) (take k (strategies self)) @ map OperationCalled ops
       \<and> (ops \<noteq> [] \<longrightarrow> k = length (strategies self))"
  proof -
    obtain r self2 where t: "tick_strategies (strategies self) tick ?self0 = (r, self2)"
      by (cases "tick_strategies (strategies self) tick ?self0")
    from tick_strategies_calls [OF t] obtain k where
      k: "k \<le> length (strategies self)"
        "calls self2 = calls self @ ExecuteTickCalled tick # map (\<lambda>s. TickCalled s tick) (take k (strategies self))"
        "\<forall>rs. r = Inr rs \<longrightarrow> k = length (strategies self)"
      by auto
    show ?thesis
    proof (cases r)
      case (Inl e')
      with t have "execute_tick self tick = (Some e', self2)" by (simp add: execute_tick_def)
      with k show ?thesis by (intro exI [of _ k] exI [of _ "[]"]) simp
    next
      case (Inr results)
      let ?flat = "concat (map operations_of results)"
      from Inr t have run': "execute_tick self tick = apply_operations ?flat self2"
        by (simp add: execute_tick_def apply_chain_filter)
      obtain res self3 where ops: "apply_operations ?flat self2 = (res, self3)"
        by (cases "apply_operations ?flat self2")
      from apply_operations_calls [OF ops] obtain j where
        "calls self3 = calls self2 @ map OperationCalled (take j ?flat)" by auto
      with k Inr run' ops show ?thesis
        by (intro exI [of _ k] exI [of _ "take j ?flat"]) simp
    qed
  qed
next
  let ?self0 = "log_call (ExecuteTickCalled tick) self"
  assume a: "strategies self = before @ s # after
       \<and> tick_strategies before tick ?self0 = (Inr rs, ticked)
       \<and> strategy_tick s tick (broker ticked) (memory ticked) = (Inl e, b, m)"
  then have all: "tick_strategies (strategies self) tick ?self0
      = (Inl e, (log_call (TickCalled s tick) ticked)\<lparr>broker := b, memory := m\<rparr>)"
    by (simp add: tick_strategies_append Let_def)
  then show run: "execute_tick self tick
      = (Some e, (log_call (TickCalled s tick) ticked)\<lparr>broker := b, memory := m\<rparr>)"
    by (simp add: execute_tick_def)
  from a have "tick_strategies before tick ?self0 = (Inr rs, ticked)" by simp
  from tick_strategies_calls [OF this]
  have "calls ticked = calls self @ ExecuteTickCalled tick # map (\<lambda>s. TickCalled s tick) before"
    by auto
  with run show "calls (snd (execute_tick self tick))
           = calls self @ ExecuteTickCalled tick # map (\<lambda>s. TickCalled s tick) (before @ [s])"
    by simp
  assume "\<forall>s' \<in> set (strategies self). leaves_broker_alone s'"
  from tick_strategies_broker [OF all this] run
  show "broker (snd (execute_tick self tick)) = broker self" by simp
qed

text \<open>
  Three strategies, the second of which raises: the first one's operation is not applied
  and the third strategy is not asked. When the first one's \<^verbatim>\<open>tick\<close> has made the
  broker see something, the broker keeps it.
\<close>

theorem execute_tick_tick_raises_witness:
  "strategies (Controller_init DummyClock [] [returning (Some [recording ''op1'']),
        raising (Failure ''boom''), returning (Some [recording ''op2''])] ())
     = [returning (Some [recording ''op1''])] @ raising (Failure ''boom'')
         # [returning (Some [recording ''op2''])]
   \<and> leaves_broker_alone (returning (Some [recording ''op1'']) :: (unit, string list, unit) strategy)
   \<and> leaves_broker_alone (raising (Failure ''boom'') :: (unit, string list, unit) strategy)
   \<and> leaves_broker_alone (returning (Some [recording ''op2'']) :: (unit, string list, unit) strategy)
   \<and> execute_tick
       (Controller_init DummyClock [] [returning (Some [recording ''op1'']),
          raising (Failure ''boom''), returning (Some [recording ''op2''])] ()) ()
     = (Some (Failure ''boom''),
        \<lparr>clock = DummyClock, broker = [],
         strategies = [returning (Some [recording ''op1'']), raising (Failure ''boom''),
           returning (Some [recording ''op2''])],
         stop_requested = False, is_running = False, memory = (),
         calls = [ExecuteTickCalled (), TickCalled (returning (Some [recording ''op1''])) (),
                  TickCalled (raising (Failure ''boom'')) ()]\<rparr>)
   \<and> broker (snd (execute_tick
       (Controller_init DummyClock [] [returning (Some [recording ''op1'']),
          raising (Failure ''boom''), returning (Some [recording ''op2''])] ()) ()))
     = broker (Controller_init DummyClock [] [returning (Some [recording ''op1'']),
          raising (Failure ''boom''), returning (Some [recording ''op2''])] ())
   \<and> execute_tick
       (Controller_init DummyClock [] [meddling ''seen'' (Some [recording ''op1'']),
          raising (Failure ''boom'')] ()) ()
     = (Some (Failure ''boom''),
        \<lparr>clock = DummyClock, broker = [''seen''],
         strategies = [meddling ''seen'' (Some [recording ''op1'']), raising (Failure ''boom'')],
         stop_requested = False, is_running = False, memory = (),
         calls = [ExecuteTickCalled (),
                  TickCalled (meddling ''seen'' (Some [recording ''op1''])) (),
                  TickCalled (raising (Failure ''boom'')) ()]\<rparr>)"
proof -
  let ?A = "returning (Some [recording ''op1'']) :: (unit, string list, unit) strategy"
  let ?B = "raising (Failure ''boom'') :: (unit, string list, unit) strategy"
  let ?C = "returning (Some [recording ''op2'']) :: (unit, string list, unit) strategy"
  let ?M = "meddling ''seen'' (Some [recording ''op1'']) :: (unit, string list, unit) strategy"
  let ?self = "Controller_init DummyClock [] [?A, ?B, ?C] ()"
  let ?self1 = "\<lparr>clock = DummyClock, broker = [], strategies = [?A, ?B, ?C],
         stop_requested = False, is_running = False, memory = (),
         calls = [ExecuteTickCalled (), TickCalled ?A ()]\<rparr>"
  let ?other = "Controller_init DummyClock [] [?M, ?B] ()"
  let ?other1 = "\<lparr>clock = DummyClock, broker = [''seen''], strategies = [?M, ?B],
         stop_requested = False, is_running = False, memory = (),
         calls = [ExecuteTickCalled (), TickCalled ?M ()]\<rparr>"
  have h1: "strategies ?self = [?A] @ ?B # [?C]" by (simp add: Controller_init_def)
  have h2: "tick_strategies [?A] () (log_call (ExecuteTickCalled ()) ?self)
      = (Inr [Some [recording ''op1'']], ?self1)"
    by (simp add: Controller_init_def log_call_def returning_def)
  have h3: "strategy_tick ?B () (broker ?self1) (memory ?self1) = (Inl (Failure ''boom''), [], ())"
    by (simp add: raising_def)
  have quiet: "leaves_broker_alone ?A" "leaves_broker_alone ?B" "leaves_broker_alone ?C"
    by (simp_all add: leaves_broker_alone_def returning_def raising_def)
  then have h4: "\<forall>s' \<in> set (strategies ?self). leaves_broker_alone s'"
    by (simp add: Controller_init_def)
  note T = execute_tick_tick_raises [where self = ?self and tick = "()" and before = "[?A]"
      and s = ?B and after = "[?C]" and ticked = ?self1 and b = "[]" and m = "()"
      and e = "Failure ''boom''" and rs = "[Some [recording ''op1'']]"]
  from T h1 h2 h3
  have "execute_tick ?self ()
      = (Some (Failure ''boom''), (log_call (TickCalled ?B ()) ?self1)\<lparr>broker := [], memory := ()\<rparr>)"
    by blast
  then have run: "execute_tick ?self () = (Some (Failure ''boom''),
        \<lparr>clock = DummyClock, broker = [], strategies = [?A, ?B, ?C],
         stop_requested = False, is_running = False, memory = (),
         calls = [ExecuteTickCalled (), TickCalled ?A (), TickCalled ?B ()]\<rparr>)"
    by (simp add: log_call_def)
  from T h1 h2 h3 h4
  have same: "broker (snd (execute_tick ?self ())) = broker ?self" by blast
  have g1: "strategies ?other = [] @ ?M # [?B]" by (simp add: Controller_init_def)
  have g2: "tick_strategies [?M] () (log_call (ExecuteTickCalled ()) ?other)
      = (Inr [Some [recording ''op1'']], ?other1)"
    by (simp add: Controller_init_def log_call_def meddling_def)
  have g1': "strategies ?other = [?M] @ ?B # []" by (simp add: Controller_init_def)
  have g3: "strategy_tick ?B () (broker ?other1) (memory ?other1)
      = (Inl (Failure ''boom''), [''seen''], ())"
    by (simp add: raising_def)
  note U = execute_tick_tick_raises [where self = ?other and tick = "()" and before = "[?M]"
      and s = ?B and after = "[]" and ticked = ?other1 and b = "[''seen'']" and m = "()"
      and e = "Failure ''boom''" and rs = "[Some [recording ''op1'']]"]
  from U g1' g2 g3
  have "execute_tick ?other ()
      = (Some (Failure ''boom''), (log_call (TickCalled ?B ()) ?other1)\<lparr>broker := [''seen''], memory := ()\<rparr>)"
    by blast
  then have changed: "execute_tick ?other () = (Some (Failure ''boom''),
        \<lparr>clock = DummyClock, broker = [''seen''], strategies = [?M, ?B],
         stop_requested = False, is_running = False, memory = (),
         calls = [ExecuteTickCalled (), TickCalled ?M (), TickCalled ?B ()]\<rparr>)"
    by (simp add: log_call_def)
  from h1 quiet run same changed show ?thesis by blast
qed

text \<open>
  Claim C9, as stated, fails: the first strategy's \<^verbatim>\<open>tick\<close> makes the broker it
  has kept see something, the second one's raises; no operation is applied, but the
  broker is not what it was.
\<close>

theorem execute_tick_tick_raises_counterexample:
  "broker (Controller_init DummyClock []
       [meddling ''seen'' (Some [recording ''op1'']), raising (Failure ''boom'')] ()
      :: (unit, unit, string list, unit) controller) = []
   \<and> fst (execute_tick
       (Controller_init DummyClock []
          [meddling ''seen'' (Some [recording ''op1'']), raising (Failure ''boom'')] ()
         :: (unit, unit, string list, unit) controller) ()) = Some (Failure ''boom'')
   \<and> broker (snd (execute_tick
       (Controller_init DummyClock []
          [meddling ''seen'' (Some [recording ''op1'']), raising (Failure ''boom'')] ()
         :: (unit, unit, string list, unit) controller) ())) = [''seen'']"
  by (simp add: Controller_init_def execute_tick_def log_call_def meddling_def raising_def)


section \<open>The run: \<open>initialize\<close> and the tick loop\<close>

lemma executed_ticks_append:
  "executed_ticks (xs @ ys) = executed_ticks xs @ executed_ticks ys"
  by (induction xs rule: executed_ticks.induct) simp_all

lemma executed_ticks_map_TickCalled [simp]:
  "executed_ticks (map (\<lambda>s. TickCalled s t) ss) = []"
  by (induction ss) simp_all

lemma executed_ticks_map_OperationCalled [simp]:
  "executed_ticks (map OperationCalled ops) = []"
  by (induction ops) simp_all

lemma executed_ticks_map_StartCalled [simp]:
  "executed_ticks (map (\<lambda>s. StartCalled s t) ss) = []"
  by (induction ss) simp_all

text \<open>
  The calls of \<open>initialize\<close>, and the fields it leaves alone.
\<close>

lemma start_strategies_calls:
  "start_strategies ss tick self = (r, self') \<Longrightarrow>
     \<exists>k. k \<le> length ss \<and> calls self' = calls self @ map (\<lambda>s. StartCalled s tick) (take k ss)
       \<and> (r = None \<longrightarrow> k = length ss)
       \<and> clock self' = clock self \<and> strategies self' = strategies self
       \<and> stop_requested self' = stop_requested self \<and> is_running self' = is_running self"
proof (induction ss arbitrary: self)
  case Nil
  then show ?case by auto
next
  case (Cons s ss)
  let ?self1 = "log_call (StartCalled s tick) self"
  obtain res b m where st: "strategy_start s (broker ?self1) tick (memory ?self1) = (res, b, m)"
    by (cases "strategy_start s (broker ?self1) tick (memory ?self1)")
  show ?case
  proof (cases res)
    case None
    with st Cons.prems have "start_strategies ss tick (?self1\<lparr>broker := b, memory := m\<rparr>) = (r, self')"
      by (simp add: Let_def)
    from Cons.IH [OF this] obtain k where
      "k \<le> length ss" "calls self' = calls self @ StartCalled s tick # map (\<lambda>s. StartCalled s tick) (take k ss)"
      "r = None \<longrightarrow> k = length ss" "clock self' = clock self" "strategies self' = strategies self"
      "stop_requested self' = stop_requested self" "is_running self' = is_running self"
      by auto
    then show ?thesis by (intro exI [of _ "Suc k"]) simp
  next
    case (Some e)
    with st Cons.prems show ?thesis by (intro exI [of _ "Suc 0"]) (auto simp: Let_def)
  qed
qed



lemma initialize_calls:
  "initialize self tick = (r, self') \<Longrightarrow>
     \<exists>k. k \<le> length (strategies self)
       \<and> calls self' = calls self @ InitializeCalled tick
           # map (\<lambda>s. StartCalled s tick) (take k (strategies self))
       \<and> (r = None \<longrightarrow> k = length (strategies self))
       \<and> clock self' = clock self \<and> strategies self' = strategies self
       \<and> stop_requested self' = stop_requested self \<and> is_running self' = is_running self"
  unfolding initialize_def
  by (drule start_strategies_calls) auto

lemma execute_tick_calls:
  "execute_tick self tick = (r, self') \<Longrightarrow>
     \<exists>es. calls self' = calls self @ ExecuteTickCalled tick # es
       \<and> executed_ticks es = [] \<and> (\<forall>c \<in> set es. \<not> initializing c)
       \<and> clock self' = clock self \<and> strategies self' = strategies self
       \<and> stop_requested self' = stop_requested self \<and> is_running self' = is_running self"
proof -
  assume run: "execute_tick self tick = (r, self')"
  let ?self0 = "log_call (ExecuteTickCalled tick) self"
  obtain res self1 where t: "tick_strategies (strategies self) tick ?self0 = (res, self1)"
    by (cases "tick_strategies (strategies self) tick ?self0")
  from tick_strategies_calls [OF t] obtain k where
    k: "calls self1 = calls self @ ExecuteTickCalled tick # map (\<lambda>s. TickCalled s tick) (take k (strategies self))"
      "clock self1 = clock self" "strategies self1 = strategies self"
      "stop_requested self1 = stop_requested self" "is_running self1 = is_running self"
    by auto
  show ?thesis
  proof (cases res)
    case (Inl e)
    with t run have "self' = self1" by (simp add: execute_tick_def)
    with k show ?thesis
      by (intro exI [of _ "map (\<lambda>s. TickCalled s tick) (take k (strategies self))"]) auto
  next
    case (Inr results)
    let ?flat = "concat (map operations_of results)"
    from Inr t run have ops: "apply_operations ?flat self1 = (r, self')"
      by (simp add: execute_tick_def apply_chain_filter)
    from apply_operations_calls [OF ops] obtain j where
      "calls self' = calls self1 @ map OperationCalled (take j ?flat)" by auto
    with k apply_operations_frame [OF ops] show ?thesis
      by (intro exI [of _ "map (\<lambda>s. TickCalled s tick) (take k (strategies self))
            @ map OperationCalled (take j ?flat)"])
        (auto simp: executed_ticks_append)
  qed
qed


lemma other_thread_fields [simp]:
  "clock (other_thread r self) = clock self"
  "broker (other_thread r self) = broker self"
  "strategies (other_thread r self) = strategies self"
  "is_running (other_thread r self) = is_running self"
  "memory (other_thread r self) = memory self"
  "calls (other_thread r self) = calls self"
  "stop_requested (other_thread r self) \<longleftrightarrow> stop_requested self \<or> r"
  by (simp_all add: other_thread_def stop_def)

lemma tick_loop_calls:
  "tick_loop fuel requests k g self = (out, self') \<Longrightarrow>
     \<exists>es. calls self' = calls self @ es \<and> (\<forall>c \<in> set es. \<not> initializing c)
       \<and> clock self' = clock self \<and> strategies self' = strategies self
       \<and> is_running self' = is_running self"
proof (induction fuel arbitrary: k g self)
  case 0
  then show ?case by auto
next
  case (Suc fuel)
  show ?case
  proof (cases "clock_next (clock self) g")
    case (Inl e)
    with Suc.prems show ?thesis by (auto split: if_splits)
  next
    case (Inr p)
    obtain tick g' where p: "p = (tick, g')" by (cases p)
    let ?self1 = "other_thread (requests k) self"
    show ?thesis
    proof (cases "stop_requested ?self1")
      case True
      with Inr p Suc.prems have "self' = ?self1" by (simp add: Let_def)
      then show ?thesis by simp
    next
      case False
      obtain r self2 where ex: "execute_tick ?self1 tick = (r, self2)"
        by (cases "execute_tick ?self1 tick")
      from execute_tick_calls [OF ex] obtain es where
        es: "calls self2 = calls self @ ExecuteTickCalled tick # es" "\<forall>c \<in> set es. \<not> initializing c"
          "clock self2 = clock self" "strategies self2 = strategies self"
          "is_running self2 = is_running self"
        by auto
      show ?thesis
      proof (cases r)
        case (Some e)
        with Inr p False ex Suc.prems have "self' = self2" by (simp add: Let_def)
        with es show ?thesis by (intro exI [of _ "ExecuteTickCalled tick # es"]) simp
      next
        case None
        let ?self3 = "other_thread (requests (k + 1)) self2"
        show ?thesis
        proof (cases "stop_requested ?self3")
          case True
          with None Inr p False ex Suc.prems have "self' = ?self3" by (simp add: Let_def)
          with es show ?thesis by (intro exI [of _ "ExecuteTickCalled tick # es"]) simp
        next
          case stay: False
          with None Inr p False ex Suc.prems
          have "tick_loop fuel requests (k + 2) g' ?self3 = (out, self')" by (simp add: Let_def)
          from Suc.IH [OF this] obtain es' where
            "calls self' = calls ?self3 @ es'" "\<forall>c \<in> set es'. \<not> initializing c"
            "clock self' = clock ?self3" "strategies self' = strategies ?self3"
            "is_running self' = is_running ?self3"
            by auto
          with es show ?thesis by (intro exI [of _ "ExecuteTickCalled tick # es @ es'"]) auto
        qed
      qed
    qed
  qed
qed

text \<open>
  Once the loop has ended, more fuel changes nothing.
\<close>

lemma tick_loop_more:
  "fst (tick_loop fuel requests k g self) \<noteq> Running \<Longrightarrow>
     tick_loop (fuel + n) requests k g self = tick_loop fuel requests k g self"
proof (induction fuel arbitrary: k g self)
  case 0
  then show ?case by simp
next
  case (Suc fuel)
  show ?case
  proof (cases "clock_next (clock self) g")
    case (Inl e)
    then show ?thesis by simp
  next
    case (Inr p)
    obtain tick g' where p: "p = (tick, g')" by (cases p)
    let ?self1 = "other_thread (requests k) self"
    show ?thesis
    proof (cases "stop_requested ?self1")
      case True
      with Inr p show ?thesis by (simp add: Let_def)
    next
      case False
      obtain r self2 where ex: "execute_tick ?self1 tick = (r, self2)"
        by (cases "execute_tick ?self1 tick")
      show ?thesis
      proof (cases r)
        case (Some e)
        with Inr p False ex show ?thesis by (simp add: Let_def)
      next
        case None
        let ?self3 = "other_thread (requests (k + 1)) self2"
        show ?thesis
        proof (cases "stop_requested ?self3")
          case True
          with None Inr p False ex show ?thesis by (simp add: Let_def)
        next
          case stay: False
          with None Inr p False ex Suc.prems
          have "fst (tick_loop fuel requests (k + 2) g' ?self3) \<noteq> Running" by (simp add: Let_def)
          from Suc.IH [OF this] None Inr p False ex stay show ?thesis by (simp add: Let_def)
        qed
      qed
    qed
  qed
qed

text \<open>
  A loop entered with the flag true makes no call, and ends at its first request to the
  clock.
\<close>

lemma tick_loop_stopped:
  assumes "stop_requested self"
  shows "calls (snd (tick_loop fuel requests k g self)) = calls self"
    and "fst (tick_loop (Suc fuel) requests k g self) \<noteq> Running"
proof -
  show "calls (snd (tick_loop fuel requests k g self)) = calls self"
  proof (cases fuel)
    case 0
    then show ?thesis by simp
  next
    case (Suc n)
    with assms show ?thesis
      by (cases "clock_next (clock self) g") (auto simp: Let_def split: prod.splits)
  qed
  from assms show "fst (tick_loop (Suc fuel) requests k g self) \<noteq> Running"
    by (cases "clock_next (clock self) g") (auto simp: Let_def split: prod.splits)
qed

text \<open>
  A call of \<open>stop\<close> before the read number \<open>j\<close> bounds the ticks the loop still
  executes from its read number \<open>k\<close> on.
\<close>

lemma tick_loop_bound:
  "requests j \<Longrightarrow> k \<le> j \<Longrightarrow>
     length (executed_ticks (calls (snd (tick_loop fuel requests k g self))))
       \<le> length (executed_ticks (calls self)) + (j + 1 - k) div 2"
proof (induction fuel arbitrary: k g self)
  case 0
  then show ?case by simp
next
  case (Suc fuel)
  show ?case
  proof (cases "clock_next (clock self) g")
    case (Inl e)
    then show ?thesis by simp
  next
    case (Inr p)
    obtain tick g' where p: "p = (tick, g')" by (cases p)
    let ?self1 = "other_thread (requests k) self"
    show ?thesis
    proof (cases "stop_requested ?self1")
      case True
      with Inr p show ?thesis by (simp add: Let_def)
    next
      case False
      then have "\<not> requests k" by simp
      with Suc.prems have j1: "k + 1 \<le> j" by (cases "j = k") auto
      obtain r self2 where ex: "execute_tick ?self1 tick = (r, self2)"
        by (cases "execute_tick ?self1 tick")
      from execute_tick_calls [OF ex] obtain es where
        "calls self2 = calls self @ ExecuteTickCalled tick # es" "executed_ticks es = []"
        by auto
      then have count: "length (executed_ticks (calls self2)) = length (executed_ticks (calls self)) + 1"
        by (simp add: executed_ticks_append)
      from j1 have one: "1 \<le> (j + 1 - k) div 2" by linarith
      show ?thesis
      proof (cases r)
        case (Some e)
        with Inr p False ex count one show ?thesis by (simp add: Let_def)
      next
        case None
        let ?self3 = "other_thread (requests (k + 1)) self2"
        show ?thesis
        proof (cases "stop_requested ?self3")
          case True
          with None Inr p False ex count one show ?thesis by (simp add: Let_def)
        next
          case stay: False
          then have "\<not> requests (k + 1)" by simp
          with Suc.prems j1 have j2: "k + 2 \<le> j" by (cases "j = k + 1") auto
          have step: "tick_loop (Suc fuel) requests k g self
              = tick_loop fuel requests (k + 2) g' ?self3"
            using None Inr p False ex stay by (simp add: Let_def)
          from Suc.IH [OF Suc.prems(1) j2, of g' ?self3] count
          have "length (executed_ticks (calls (snd (tick_loop fuel requests (k + 2) g' ?self3))))
              \<le> length (executed_ticks (calls self)) + (1 + (j + 1 - (k + 2)) div 2)"
            by simp
          also have "1 + (j + 1 - (k + 2)) div 2 = (j + 1 - k) div 2" using j2 by linarith
          finally show ?thesis unfolding step .
        qed
      qed
    qed
  qed
qed



text \<open>
  \<open>start_hooks\<close> stops at the first hook that raises, and \<open>initialize\<close> does to the
  controller what \<open>start_hooks\<close> says of the broker and the memory.
\<close>

lemma start_hooks_count:
  "start_hooks ss tick b0 m0 = (k, r, b, m) \<Longrightarrow>
     k \<le> length ss \<and> (r = None \<longrightarrow> k = length ss) \<and> (r \<noteq> None \<longrightarrow> 0 < k)"
proof (induction ss arbitrary: k r b m b0 m0)
  case Nil
  then show ?case by simp
next
  case (Cons s ss)
  obtain res b' m' where st: "strategy_start s b0 tick m0 = (res, b', m')"
    by (cases "strategy_start s b0 tick m0")
  show ?case
  proof (cases res)
    case (Some e)
    with st Cons.prems show ?thesis by auto
  next
    case None
    obtain k' r' b'' m'' where rest: "start_hooks ss tick b' m' = (k', r', b'', m'')"
      by (cases "start_hooks ss tick b' m'")
    from Cons.IH [OF rest] st None rest Cons.prems show ?thesis by auto
  qed
qed

lemma start_hooks_raised:
  "start_hooks ss tick b0 m0 = (k, Some e, b, m) \<Longrightarrow>
     \<exists>b1 m1. start_hooks (take (k - 1) ss) tick b0 m0 = (k - 1, None, b1, m1)
       \<and> strategy_start (ss ! (k - 1)) b1 tick m1 = (Some e, b, m)"
proof (induction ss arbitrary: k b0 m0)
  case Nil
  then show ?case by simp
next
  case (Cons s ss)
  obtain res b' m' where st: "strategy_start s b0 tick m0 = (res, b', m')"
    by (cases "strategy_start s b0 tick m0")
  show ?case
  proof (cases res)
    case (Some e')
    with st Cons.prems show ?thesis by auto
  next
    case None
    obtain k' r' b'' m'' where rest: "start_hooks ss tick b' m' = (k', r', b'', m'')"
      by (cases "start_hooks ss tick b' m'")
    with st None Cons.prems have eq: "k = Suc k'" "r' = Some e" "b'' = b" "m'' = m" by auto
    from rest eq have rest': "start_hooks ss tick b' m' = (k', Some e, b, m)" by simp
    from start_hooks_count [OF rest'] have pos: "0 < k'" by simp
    from Cons.IH [OF rest'] obtain b1 m1 where
      pre: "start_hooks (take (k' - 1) ss) tick b' m' = (k' - 1, None, b1, m1)"
      and hook: "strategy_start (ss ! (k' - 1)) b1 tick m1 = (Some e, b, m)" by blast
    from pos have take: "take (k - 1) (s # ss) = s # take (k' - 1) ss"
      unfolding eq by (cases k') simp_all
    from pos have nth: "(s # ss) ! (k - 1) = ss ! (k' - 1)"
      unfolding eq by (cases k') simp_all
    from pos have "start_hooks (take (k - 1) (s # ss)) tick b0 m0 = (k - 1, None, b1, m1)"
      unfolding take using st None pre eq by simp
    with hook nth show ?thesis by auto
  qed
qed

lemma start_strategies_hooks:
  "start_hooks ss tick (broker self) (memory self) = (k, r, b, m) \<Longrightarrow>
     start_strategies ss tick self
       = (r, self\<lparr>broker := b, memory := m,
                 calls := calls self @ map (\<lambda>s. StartCalled s tick) (take k ss)\<rparr>)"
proof (induction ss arbitrary: self k)
  case Nil
  then show ?case by simp
next
  case (Cons s ss)
  obtain res b' m' where st: "strategy_start s (broker self) tick (memory self) = (res, b', m')"
    by (cases "strategy_start s (broker self) tick (memory self)")
  let ?self1 = "log_call (StartCalled s tick) self"
  show ?case
  proof (cases res)
    case (Some e)
    with st Cons.prems show ?thesis
      by (cases self) (auto simp: Let_def log_call_def)
  next
    case None
    let ?next = "?self1\<lparr>broker := b', memory := m'\<rparr>"
    obtain k' r' b'' m'' where rest: "start_hooks ss tick b' m' = (k', r', b'', m'')"
      by (cases "start_hooks ss tick b' m'")
    with st None Cons.prems have eq: "k = Suc k'" "r' = r" "b'' = b" "m'' = m" by auto
    from rest eq have "start_hooks ss tick (broker ?next) (memory ?next) = (k', r, b, m)" by simp
    from Cons.IH [OF this] have "start_strategies ss tick ?next
        = (r, ?next\<lparr>broker := b, memory := m,
                 calls := calls ?next @ map (\<lambda>s. StartCalled s tick) (take k' ss)\<rparr>)" .
    moreover have "start_strategies (s # ss) tick self = start_strategies ss tick ?next"
      using st None by (simp add: Let_def)
    moreover have "?next\<lparr>broker := b, memory := m,
                 calls := calls ?next @ map (\<lambda>s. StartCalled s tick) (take k' ss)\<rparr>
        = self\<lparr>broker := b, memory := m,
                 calls := calls self @ map (\<lambda>s. StartCalled s tick) (take k (s # ss))\<rparr>"
      unfolding eq by (cases self) (simp add: log_call_def)
    ultimately show ?thesis by simp
  qed
qed

lemma initialize_hooks:
  "start_hooks (strategies self) tick (broker self) (memory self) = (k, r, b, m) \<Longrightarrow>
     initialize self tick = (r, initialized self tick k b m)"
proof -
  assume hooks: "start_hooks (strategies self) tick (broker self) (memory self) = (k, r, b, m)"
  let ?self0 = "log_call (InitializeCalled tick) self"
  from hooks have "start_hooks (strategies self) tick (broker ?self0) (memory ?self0) = (k, r, b, m)"
    by simp
  from start_strategies_hooks [OF this]
  have "initialize self tick
      = (r, ?self0\<lparr>broker := b, memory := m,
               calls := calls ?self0 @ map (\<lambda>s. StartCalled s tick) (take k (strategies self))\<rparr>)"
    by (simp add: initialize_def)
  moreover have "?self0\<lparr>broker := b, memory := m,
               calls := calls ?self0 @ map (\<lambda>s. StartCalled s tick) (take k (strategies self))\<rparr>
      = initialized self tick k b m"
    by (cases self) (simp add: log_call_def initialized_def)
  ultimately show ?thesis by simp
qed

lemma initialized_fields [simp]:
  "clock (initialized self tick k b m) = clock self"
  "broker (initialized self tick k b m) = b"
  "strategies (initialized self tick k b m) = strategies self"
  "stop_requested (initialized self tick k b m) = stop_requested self"
  "is_running (initialized self tick k b m) = is_running self"
  "memory (initialized self tick k b m) = m"
  "calls (initialized self tick k b m)
     = calls self @ InitializeCalled tick # map (\<lambda>s. StartCalled s tick) (take k (strategies self))"
  by (simp_all add: initialized_def)


text \<open>
  Claim C5, as the code has it. In a run whose clock yields a first tick, however long
  the run is followed and whatever the other thread does, \<open>initialize\<close> is called once,
  with that first tick, and calls \<^verbatim>\<open>start\<close> with the broker and that tick on the
  strategies in collection order: on all of them when no \<^verbatim>\<open>start\<close> raises, and
  otherwise up to the first one that raises, whose exception ends the run with the
  broker and the memory as that hook left them. The broker and the memory the tick loop
  begins with are those the hooks have left, and every call after the hooks belongs to
  \<open>execute_tick\<close>: none is a second \<open>initialize\<close> or \<^verbatim>\<open>start\<close>.
\<close>

theorem initialize_once:
  assumes "clock_next (clock self) (clock_iter (clock self)) = Inr (first, g)"
    and "start_hooks (strategies self) first (broker self) (memory self) = (k, r, b, m)"
  shows "k \<le> length (strategies self)
    \<and> (r = None \<longrightarrow> k = length (strategies self))
    \<and> (\<forall>e. r = Some e \<longrightarrow>
          0 < k
          \<and> (\<exists>b1 m1.
                start_hooks (take (k - 1) (strategies self)) first (broker self) (memory self)
                  = (k - 1, None, b1, m1)
              \<and> strategy_start (strategies self ! (k - 1)) b1 first m1 = (Some e, b, m)))
    \<and> initialize (self\<lparr>is_running := True\<rparr>) first
        = (r, initialized (self\<lparr>is_running := True\<rparr>) first k b m)
    \<and> (\<forall>e. r = Some e \<longrightarrow>
          thread_run fuel requests self
            = (Raised e, initialized (self\<lparr>is_running := True\<rparr>) first k b m))
    \<and> (r = None \<longrightarrow>
          thread_run fuel requests self
            = (case tick_loop fuel requests 0 g
                      (initialized (self\<lparr>is_running := True\<rparr>) first k b m) of
                 (Returned, final) \<Rightarrow> (Returned, final\<lparr>is_running := False\<rparr>)
               | (Raised e, final) \<Rightarrow> (Raised e, final)
               | (Running, final) \<Rightarrow> (Running, final)))
    \<and> (\<exists>later.
          calls (snd (thread_run fuel requests self))
            = calls self @ InitializeCalled first
                # map (\<lambda>s. StartCalled s first) (take k (strategies self)) @ later
        \<and> (\<forall>c \<in> set later. \<not> initializing c)
        \<and> (later \<noteq> [] \<longrightarrow> k = length (strategies self)))"
proof -
  let ?self0 = "self\<lparr>is_running := True\<rparr>"
  let ?started = "initialized ?self0 first k b m"
  from assms(2) have hooks: "start_hooks (strategies ?self0) first (broker ?self0) (memory ?self0)
      = (k, r, b, m)" by simp
  note count = start_hooks_count [OF assms(2)]
  have init: "initialize ?self0 first = (r, ?started)" by (rule initialize_hooks [OF hooks])
  have raised: "0 < k \<and> (\<exists>b1 m1.
                start_hooks (take (k - 1) (strategies self)) first (broker self) (memory self)
                  = (k - 1, None, b1, m1)
              \<and> strategy_start (strategies self ! (k - 1)) b1 first m1 = (Some e, b, m))"
    if "r = Some e" for e
    using start_hooks_raised [OF assms(2) [unfolded that]] count that by simp
  have fails: "thread_run fuel requests self = (Raised e, ?started)" if "r = Some e" for e
    using assms(1) init that by (simp add: thread_run_def)
  have runs: "thread_run fuel requests self
            = (case tick_loop fuel requests 0 g ?started of
                 (Returned, final) \<Rightarrow> (Returned, final\<lparr>is_running := False\<rparr>)
               | (Raised e, final) \<Rightarrow> (Raised e, final)
               | (Running, final) \<Rightarrow> (Running, final))" if "r = None"
    using assms(1) init that by (simp add: thread_run_def)
  have log: "\<exists>later.
          calls (snd (thread_run fuel requests self))
            = calls self @ InitializeCalled first
                # map (\<lambda>s. StartCalled s first) (take k (strategies self)) @ later
        \<and> (\<forall>c \<in> set later. \<not> initializing c)
        \<and> (later \<noteq> [] \<longrightarrow> k = length (strategies self))"
  proof (cases r)
    case (Some e)
    with fails [OF Some] show ?thesis by (intro exI [of _ "[]"]) simp
  next
    case None
    obtain out self2 where loop: "tick_loop fuel requests 0 g ?started = (out, self2)"
      by (cases "tick_loop fuel requests 0 g ?started")
    from tick_loop_calls [OF loop] obtain es where
      es: "calls self2 = calls ?started @ es" "\<forall>c \<in> set es. \<not> initializing c" by auto
    from runs [OF None] loop have "calls (snd (thread_run fuel requests self)) = calls self2"
      by (cases out) simp_all
    with es count None show ?thesis by (intro exI [of _ es]) simp
  qed
  from count init raised fails runs log show ?thesis by blast
qed


text \<open>
  The dummy clock and strategies whose \<^verbatim>\<open>start\<close> makes the broker see their name.
  With two of them the broker has seen both, in order, before the first tick is
  executed; with a strategy between them whose \<^verbatim>\<open>start\<close> raises, the broker has
  seen the first only and the run has ended.
\<close>

theorem initialize_once_witness:
  "clock_next (clock (Controller_init DummyClock [] [announcing ''A'', announcing ''B''] ()))
     (clock_iter (clock (Controller_init DummyClock [] [announcing ''A'', announcing ''B''] ())))
     = Inr ((), ())
   \<and> start_hooks [announcing ''A'', announcing ''B''] () [] () = (2, None, [''A'', ''B''], ())
   \<and> thread_run 1 no_requests (Controller_init DummyClock [] [announcing ''A'', announcing ''B''] ())
     = (Running,
        \<lparr>clock = DummyClock, broker = [''A'', ''B''],
         strategies = [announcing ''A'', announcing ''B''],
         stop_requested = False, is_running = True, memory = (),
         calls = [InitializeCalled (), StartCalled (announcing ''A'') (),
                  StartCalled (announcing ''B'') (),
                  ExecuteTickCalled (), TickCalled (announcing ''A'') (),
                  TickCalled (announcing ''B'') ()]\<rparr>)
   \<and> start_hooks [announcing ''A'', failing_start (Failure ''boom''), announcing ''B''] () [] ()
     = (2, Some (Failure ''boom''), [''A''], ())
   \<and> thread_run 1 no_requests
       (Controller_init DummyClock []
          [announcing ''A'', failing_start (Failure ''boom''), announcing ''B''] ())
     = (Raised (Failure ''boom''),
        \<lparr>clock = DummyClock, broker = [''A''],
         strategies = [announcing ''A'', failing_start (Failure ''boom''), announcing ''B''],
         stop_requested = False, is_running = True, memory = (),
         calls = [InitializeCalled (), StartCalled (announcing ''A'') (),
                  StartCalled (failing_start (Failure ''boom'')) ()]\<rparr>)"
proof -
  let ?A = "announcing ''A'' :: (unit, string list, unit) strategy"
  let ?B = "announcing ''B'' :: (unit, string list, unit) strategy"
  let ?F = "failing_start (Failure ''boom'') :: (unit, string list, unit) strategy"
  let ?good = "Controller_init DummyClock [] [?A, ?B] ()"
  let ?bad = "Controller_init DummyClock [] [?A, ?F, ?B] ()"
  have c1: "clock_next (clock ?good) (clock_iter (clock ?good)) = Inr ((), ())"
    by (simp add: Controller_init_def DummyClock_def)
  have c2: "clock_next (clock ?bad) (clock_iter (clock ?bad)) = Inr ((), ())"
    by (simp add: Controller_init_def DummyClock_def)
  have s1: "start_hooks [?A, ?B] () [] () = (2, None, [''A'', ''B''], ())"
    by (simp add: announcing_def)
  have s2: "start_hooks [?A, ?F, ?B] () [] () = (2, Some (Failure ''boom''), [''A''], ())"
    by (simp add: announcing_def failing_start_def)
  have h1: "start_hooks (strategies ?good) () (broker ?good) (memory ?good)
      = (2, None, [''A'', ''B''], ())"
    using s1 by (simp add: Controller_init_def)
  have h2: "start_hooks (strategies ?bad) () (broker ?bad) (memory ?bad)
      = (2, Some (Failure ''boom''), [''A''], ())"
    using s2 by (simp add: Controller_init_def)
  from initialize_once [OF c1 h1, of 1 no_requests]
  have "thread_run 1 no_requests ?good
      = (case tick_loop 1 no_requests 0 ()
                (initialized (?good\<lparr>is_running := True\<rparr>) () 2 [''A'', ''B''] ()) of
           (Returned, final) \<Rightarrow> (Returned, final\<lparr>is_running := False\<rparr>)
         | (Raised e, final) \<Rightarrow> (Raised e, final)
         | (Running, final) \<Rightarrow> (Running, final))"
    by blast
  then have good: "thread_run 1 no_requests ?good
     = (Running,
        \<lparr>clock = DummyClock, broker = [''A'', ''B''], strategies = [?A, ?B],
         stop_requested = False, is_running = True, memory = (),
         calls = [InitializeCalled (), StartCalled ?A (), StartCalled ?B (),
                  ExecuteTickCalled (), TickCalled ?A (), TickCalled ?B ()]\<rparr>)"
    by (simp add: initialized_def Controller_init_def DummyClock_def no_requests_def
        other_thread_def execute_tick_def log_call_def announcing_def Let_def)
  from initialize_once [OF c2 h2, of 1 no_requests]
  have "thread_run 1 no_requests ?bad
      = (Raised (Failure ''boom''),
         initialized (?bad\<lparr>is_running := True\<rparr>) () 2 [''A''] ())"
    by blast
  then have bad: "thread_run 1 no_requests ?bad
     = (Raised (Failure ''boom''),
        \<lparr>clock = DummyClock, broker = [''A''], strategies = [?A, ?F, ?B],
         stop_requested = False, is_running = True, memory = (),
         calls = [InitializeCalled (), StartCalled ?A (), StartCalled ?F ()]\<rparr>)"
    by (simp add: initialized_def Controller_init_def)
  from c1 s1 good s2 bad show ?thesis by blast
qed

text \<open>
  Claim C5, as stated, fails. With a simulated clock whose \<open>stop\<close> equals its \<open>start\<close>,
  \<^verbatim>\<open>next(clock)\<close> raises \<open>StopIteration\<close> and \<open>initialize\<close> is never called (and
  \<^verbatim>\<open>_is_running\<close> stays true). With a first strategy whose \<^verbatim>\<open>start\<close> raises, the
  second strategy is never started.
\<close>

theorem initialize_not_called_counterexample:
  "thread_run 5 no_requests
     (Controller_init
        (SimulatedClock_iter \<lparr>sc_start = 4500000, sc_stop = 4500000, sc_interval = 1000000\<rparr>)
        [] [tick_recorder] ())
     = (Raised StopIteration,
        \<lparr>clock = SimulatedClock_iter \<lparr>sc_start = 4500000, sc_stop = 4500000, sc_interval = 1000000\<rparr>,
         broker = [], strategies = [tick_recorder], stop_requested = False, is_running = True,
         memory = (), calls = []\<rparr>)
   \<and> thread_run 5 no_requests
       (Controller_init DummyClock [] [failing_start (Failure ''boom''), tick_recorder] ())
     = (Raised (Failure ''boom''),
        \<lparr>clock = DummyClock, broker = [],
         strategies = [failing_start (Failure ''boom''), tick_recorder],
         stop_requested = False, is_running = True, memory = (),
         calls = [InitializeCalled (), StartCalled (failing_start (Failure ''boom'')) ()]\<rparr>)"
  by (simp add: thread_run_def Controller_init_def SimulatedClock_iter_def sim_loop_test_def
      DummyClock_def initialize_def log_call_def failing_start_def)



section \<open>The stop flag in the tick loop\<close>

text \<open>
  Claim C6. For a tick the clock yields in the loop: when the flag is true at the read
  before \<open>execute_tick\<close>, the loop returns without executing the tick; when it is false
  there and the other thread calls \<open>stop\<close> during \<open>execute_tick\<close>, the loop returns
  right after that tick. A run that returns has set \<^verbatim>\<open>_is_running\<close> to false. When the
  other thread calls \<open>stop\<close> before the read number \<open>j\<close>, the run executes at most
  \<open>(j + 1) div 2\<close> ticks: those before the request and the one in flight. And a loop
  entered with the flag true executes nothing.
\<close>

theorem stop_checked_around_each_tick:
  "(clock_next (clock self) g = Inr (tick, g') \<and> (stop_requested self \<or> requests k)
      \<longrightarrow> tick_loop (Suc fuel) requests k g self = (Returned, other_thread (requests k) self)
          \<and> calls (other_thread (requests k) self) = calls self)
   \<and> (clock_next (clock self) g = Inr (tick, g') \<and> \<not> stop_requested self \<and> \<not> requests k
        \<and> execute_tick self tick = (None, self') \<and> requests (k + 1)
      \<longrightarrow> tick_loop (Suc fuel) requests k g self = (Returned, stop self')
          \<and> executed_ticks (calls (stop self')) = executed_ticks (calls self) @ [tick])
   \<and> (fst (thread_run fuel requests self) = Returned
      \<longrightarrow> \<not> is_running (snd (thread_run fuel requests self)))
   \<and> (requests j
      \<longrightarrow> length (executed_ticks (calls (snd (thread_run fuel requests self))))
            \<le> length (executed_ticks (calls self)) + (j + 1) div 2)
   \<and> (stop_requested self
      \<longrightarrow> calls (snd (tick_loop fuel requests k g self)) = calls self)"
proof (intro conjI impI)
  assume a: "clock_next (clock self) g = Inr (tick, g') \<and> (stop_requested self \<or> requests k)"
  then show "tick_loop (Suc fuel) requests k g self = (Returned, other_thread (requests k) self)"
    by (simp add: Let_def)
  show "calls (other_thread (requests k) self) = calls self" by simp
next
  assume b: "clock_next (clock self) g = Inr (tick, g') \<and> \<not> stop_requested self \<and> \<not> requests k
        \<and> execute_tick self tick = (None, self') \<and> requests (k + 1)"
  then show "tick_loop (Suc fuel) requests k g self = (Returned, stop self')"
    by (simp add: Let_def other_thread_def stop_def)
  from b have "execute_tick self tick = (None, self')" by simp
  from execute_tick_calls [OF this] obtain es where
    "calls self' = calls self @ ExecuteTickCalled tick # es" "executed_ticks es = []" by auto
  then show "executed_ticks (calls (stop self')) = executed_ticks (calls self) @ [tick]"
    by (simp add: stop_def executed_ticks_append)
next
  assume "fst (thread_run fuel requests self) = Returned"
  then show "\<not> is_running (snd (thread_run fuel requests self))"
    by (auto simp: thread_run_def Let_def split: sum.splits prod.splits option.splits outcome.splits)
next
  assume j: "requests j"
  let ?self0 = "self\<lparr>is_running := True\<rparr>"
  show "length (executed_ticks (calls (snd (thread_run fuel requests self))))
            \<le> length (executed_ticks (calls self)) + (j + 1) div 2"
  proof (cases "clock_next (clock self) (clock_iter (clock self))")
    case (Inl e)
    then show ?thesis by (simp add: thread_run_def)
  next
    case (Inr p)
    obtain first g1 where p: "p = (first, g1)" by (cases p)
    obtain r self1 where init: "initialize ?self0 first = (r, self1)"
      by (cases "initialize ?self0 first")
    from initialize_calls [OF init] obtain n where
      "calls self1 = calls self @ InitializeCalled first
         # map (\<lambda>s. StartCalled s first) (take n (strategies self))"
      by auto
    then have same: "executed_ticks (calls self1) = executed_ticks (calls self)"
      by (simp add: executed_ticks_append)
    show ?thesis
    proof (cases r)
      case (Some e)
      with Inr p init same show ?thesis by (simp add: thread_run_def)
    next
      case None
      obtain out self3 where loop: "tick_loop fuel requests 0 g1 self1 = (out, self3)"
        by (cases "tick_loop fuel requests 0 g1 self1")
      from tick_loop_bound [where requests = requests and j = j and k = 0 and fuel = fuel
          and g = g1 and self = self1] j loop same
      have "length (executed_ticks (calls self3))
          \<le> length (executed_ticks (calls self)) + (j + 1) div 2"
        by simp
      with Inr p init None loop show ?thesis
        by (cases out) (simp_all add: thread_run_def)
    qed
  qed
next
  assume "stop_requested self"
  then show "calls (snd (tick_loop fuel requests k g self)) = calls self"
    by (rule tick_loop_stopped(1))
qed


text \<open>
  The dummy clock never ends; \<open>stop\<close> is called during the second tick of the loop.
\<close>

theorem stop_checked_around_each_tick_witness:
  "clock_next (clock recorder_on_dummy_clock) () = Inr ((), ())
   \<and> \<not> stop_requested recorder_on_dummy_clock
   \<and> \<not> request_at 3 2 \<and> request_at 3 (2 + 1)
   \<and> execute_tick recorder_on_dummy_clock ()
       = (None, recorder_on_dummy_clock\<lparr>broker := [()],
            calls := [ExecuteTickCalled (), TickCalled tick_recorder (), OperationCalled (recording ())]\<rparr>)
   \<and> tick_loop (Suc 0) (request_at 3) 2 () recorder_on_dummy_clock
       = (Returned, stop (recorder_on_dummy_clock\<lparr>broker := [()],
            calls := [ExecuteTickCalled (), TickCalled tick_recorder (), OperationCalled (recording ())]\<rparr>))
   \<and> stop_requested (stop recorder_on_dummy_clock)
   \<and> tick_loop (Suc 0) no_requests 0 () (stop recorder_on_dummy_clock)
       = (Returned, stop recorder_on_dummy_clock)
   \<and> calls (snd (tick_loop 7 no_requests 0 () (stop recorder_on_dummy_clock))) = []
   \<and> thread_run 5 (request_at 3) recorder_on_dummy_clock
       = (Returned,
          \<lparr>clock = DummyClock, broker = [(), ()], strategies = [tick_recorder],
           stop_requested = True, is_running = False, memory = (),
           calls = [InitializeCalled (), StartCalled tick_recorder (),
                    ExecuteTickCalled (), TickCalled tick_recorder (), OperationCalled (recording ()),
                    ExecuteTickCalled (), TickCalled tick_recorder (), OperationCalled (recording ())]\<rparr>)
   \<and> \<not> is_running (snd (thread_run 5 (request_at 3) recorder_on_dummy_clock))
   \<and> length (executed_ticks (calls (snd (thread_run 5 (request_at 3) recorder_on_dummy_clock))))
       \<le> length (executed_ticks (calls recorder_on_dummy_clock)) + (3 + 1) div 2"
proof -
  let ?C = "recorder_on_dummy_clock"
  let ?C2 = "?C\<lparr>broker := [()],
            calls := [ExecuteTickCalled (), TickCalled tick_recorder (), OperationCalled (recording ())]\<rparr>"
  have clk: "clock_next (clock ?C) () = Inr ((), ())"
    by (simp add: recorder_on_dummy_clock_def Controller_init_def DummyClock_def)
  have clk': "clock_next (clock (stop ?C)) () = Inr ((), ())"
    by (simp add: recorder_on_dummy_clock_def Controller_init_def DummyClock_def stop_def)
  have flag: "\<not> stop_requested ?C" by (simp add: recorder_on_dummy_clock_def Controller_init_def)
  have flag': "stop_requested (stop ?C)" by (simp add: stop_def)
  have req: "\<not> request_at 3 2" "request_at 3 (2 + 1)" "request_at 3 3" by (simp_all add: request_at_def)
  have ex: "execute_tick ?C () = (None, ?C2)"
    by (simp add: recorder_on_dummy_clock_def Controller_init_def execute_tick_def log_call_def
        tick_recorder_def recording_def)
  have run: "thread_run 5 (request_at 3) ?C
       = (Returned,
          \<lparr>clock = DummyClock, broker = [(), ()], strategies = [tick_recorder],
           stop_requested = True, is_running = False, memory = (),
           calls = [InitializeCalled (), StartCalled tick_recorder (),
                    ExecuteTickCalled (), TickCalled tick_recorder (), OperationCalled (recording ()),
                    ExecuteTickCalled (), TickCalled tick_recorder (), OperationCalled (recording ())]\<rparr>)"
    by (simp add: thread_run_def recorder_on_dummy_clock_def Controller_init_def DummyClock_def
        initialize_def log_call_def execute_tick_def tick_recorder_def recording_def
        request_at_def other_thread_def stop_def Let_def eval_nat_numeral)
  note A = stop_checked_around_each_tick [where self = ?C and g = "()" and tick = "()" and g' = "()"
      and requests = "request_at 3" and k = 2 and fuel = 0 and self' = ?C2 and j = 3]
  note B = stop_checked_around_each_tick [where self = "stop ?C" and g = "()" and tick = "()"
      and g' = "()" and requests = no_requests and k = 0 and fuel = 0]
  note D = stop_checked_around_each_tick [where self = ?C and requests = "request_at 3"
      and fuel = 5 and j = 3]
  note E = stop_checked_around_each_tick [where self = "stop ?C" and requests = no_requests
      and fuel = 7 and k = 0 and g = "()"]
  from A clk flag req ex
  have b: "tick_loop (Suc 0) (request_at 3) 2 () ?C = (Returned, stop ?C2)" by blast
  from B clk' flag'
  have a: "tick_loop (Suc 0) no_requests 0 () (stop ?C) = (Returned, stop ?C)"
    by (simp add: other_thread_def no_requests_def)
  from E flag' have e: "calls (snd (tick_loop 7 no_requests 0 () (stop ?C))) = []"
    by (simp add: stop_def recorder_on_dummy_clock_def Controller_init_def)
  from D run have c: "\<not> is_running (snd (thread_run 5 (request_at 3) ?C))" by simp
  from D req(3) have d: "length (executed_ticks (calls (snd (thread_run 5 (request_at 3) ?C))))
       \<le> length (executed_ticks (calls ?C)) + (3 + 1) div 2" by blast
  from clk flag req(1,2) ex b flag' a e run c d show ?thesis by blast
qed

section \<open>The end-to-end scenario\<close>

text \<open>
  Claim C1, as the code has it. The simulated clock from \<open>T0\<close> to three seconds later,
  every second, and one strategy that returns an operation recording the tick: the run
  returns by itself, with no call of \<open>stop\<close>, as soon as the loop has asked the clock
  three times. The first tick \<open>T0\<close> goes to \<open>initialize\<close>; the broker sees two
  operations, for \<open>T0 + 1\<close> and \<open>T0 + 2\<close> seconds, in that order.
\<close>

theorem three_tick_run:
  assumes "valid_datetime T0" and "valid_datetime (T0 + 3000000)"
  shows "SimulatedClock_init T0 (T0 + 3000000) (PyInt 1)
           = Inr \<lparr>sc_start = T0, sc_stop = T0 + 3000000, sc_interval = 1000000\<rparr>
       \<and> thread_run (3 + n) no_requests
           (Controller_init
              (SimulatedClock_iter \<lparr>sc_start = T0, sc_stop = T0 + 3000000, sc_interval = 1000000\<rparr>)
              [] [tick_recorder] m)
         = (Returned,
            \<lparr>clock = SimulatedClock_iter \<lparr>sc_start = T0, sc_stop = T0 + 3000000, sc_interval = 1000000\<rparr>,
             broker = [T0 + 1000000, T0 + 2000000], strategies = [tick_recorder],
             stop_requested = False, is_running = False, memory = m,
             calls = [InitializeCalled T0, StartCalled tick_recorder T0,
                      ExecuteTickCalled (T0 + 1000000), TickCalled tick_recorder (T0 + 1000000),
                      OperationCalled (recording (T0 + 1000000)),
                      ExecuteTickCalled (T0 + 2000000), TickCalled tick_recorder (T0 + 2000000),
                      OperationCalled (recording (T0 + 2000000))]\<rparr>)"
proof -
  let ?sc = "\<lparr>sc_start = T0, sc_stop = T0 + 3000000, sc_interval = 1000000\<rparr>"
  have init: "SimulatedClock_init T0 (T0 + 3000000) (PyInt 1) = Inr ?sc"
    by (simp add: SimulatedClock_init_def timedelta_microseconds_def)
  from assms have range: "0 \<le> T0" "T0 + 3000000 \<le> datetime_max"
    by (simp_all add: valid_datetime_def)
  have n0: "SimulatedClock_next ?sc Created = Inr (T0, Suspended T0)"
    by (simp add: sim_loop_test_def)
  have n1: "SimulatedClock_next ?sc (Suspended T0) = Inr (T0 + 1000000, Suspended (T0 + 1000000))"
    using range by (simp add: sim_loop_test_def datetime_add_def)
  have n2: "SimulatedClock_next ?sc (Suspended (T0 + 1000000))
      = Inr (T0 + 2000000, Suspended (T0 + 2000000))"
    using range by (simp add: sim_loop_test_def datetime_add_def)
  have n3: "SimulatedClock_next ?sc (Suspended (T0 + 2000000)) = Inl StopIteration"
    using range by (simp add: sim_loop_test_def datetime_add_def)
  have fuel: "3 + n = Suc (Suc (Suc n))" by simp
  have "thread_run (3 + n) no_requests (Controller_init (SimulatedClock_iter ?sc) [] [tick_recorder] m)
      = (Returned,
            \<lparr>clock = SimulatedClock_iter ?sc,
             broker = [T0 + 1000000, T0 + 2000000], strategies = [tick_recorder],
             stop_requested = False, is_running = False, memory = m,
             calls = [InitializeCalled T0, StartCalled tick_recorder T0,
                      ExecuteTickCalled (T0 + 1000000), TickCalled tick_recorder (T0 + 1000000),
                      OperationCalled (recording (T0 + 1000000)),
                      ExecuteTickCalled (T0 + 2000000), TickCalled tick_recorder (T0 + 2000000),
                      OperationCalled (recording (T0 + 2000000))]\<rparr>)"
    unfolding fuel
    by (simp add: thread_run_def Controller_init_def SimulatedClock_iter_def n0 n1 n2 n3
        initialize_def log_call_def execute_tick_def tick_recorder_def recording_def
        no_requests_def other_thread_def Let_def del: SimulatedClock_next.simps)
  with init show ?thesis by simp
qed


text \<open>
  \<open>T0\<close> ten seconds after \<^verbatim>\<open>datetime.min\<close>.
\<close>

theorem three_tick_run_witness:
  "valid_datetime 10000000 \<and> valid_datetime (10000000 + 3000000)
   \<and> SimulatedClock_init 10000000 (10000000 + 3000000) (PyInt 1)
       = Inr \<lparr>sc_start = 10000000, sc_stop = 13000000, sc_interval = 1000000\<rparr>
   \<and> thread_run 3 no_requests
       (Controller_init
          (SimulatedClock_iter \<lparr>sc_start = 10000000, sc_stop = 13000000, sc_interval = 1000000\<rparr>)
          [] [tick_recorder] ())
     = (Returned,
        \<lparr>clock = SimulatedClock_iter \<lparr>sc_start = 10000000, sc_stop = 13000000, sc_interval = 1000000\<rparr>,
         broker = [11000000, 12000000], strategies = [tick_recorder],
         stop_requested = False, is_running = False, memory = (),
         calls = [InitializeCalled 10000000, StartCalled tick_recorder 10000000,
                  ExecuteTickCalled 11000000, TickCalled tick_recorder 11000000,
                  OperationCalled (recording 11000000),
                  ExecuteTickCalled 12000000, TickCalled tick_recorder 12000000,
                  OperationCalled (recording 12000000)]\<rparr>)"
proof -
  have h1: "valid_datetime 10000000" and h2: "valid_datetime (10000000 + 3000000)"
    by (simp_all add: valid_datetime_def datetime_max_def)
  from three_tick_run [OF h1 h2, of 0 "()"] h1 h2 show ?thesis by simp
qed

text \<open>
  Claim C1, as stated, fails: the broker does not see three operations for \<open>T0\<close>,
  \<open>T0 + 1\<close>, \<open>T0 + 2\<close>.
\<close>

theorem three_tick_run_counterexample:
  "fst (thread_run 5 no_requests
     (Controller_init
        (SimulatedClock_iter \<lparr>sc_start = 10000000, sc_stop = 13000000, sc_interval = 1000000\<rparr>)
        [] [tick_recorder] ())) = Returned
   \<and> broker (snd (thread_run 5 no_requests
     (Controller_init
        (SimulatedClock_iter \<lparr>sc_start = 10000000, sc_stop = 13000000, sc_interval = 1000000\<rparr>)
        [] [tick_recorder] ()))) = [11000000, 12000000]
   \<and> broker (snd (thread_run 5 no_requests
     (Controller_init
        (SimulatedClock_iter \<lparr>sc_start = 10000000, sc_stop = 13000000, sc_interval = 1000000\<rparr>)
        [] [tick_recorder] ()))) \<noteq> [10000000, 11000000, 12000000]"
  by (simp add: thread_run_def Controller_init_def SimulatedClock_iter_def sim_loop_test_def
      datetime_add_def datetime_max_def initialize_def log_call_def execute_tick_def
      tick_recorder_def recording_def no_requests_def other_thread_def Let_def eval_nat_numeral)


end
